theory Spec2Isabelle
  imports Main
begin

section \<open>Session store (src/session.js)\<close>

text \<open>
  The module keeps one JavaScript \<^verbatim>\<open>Map\<close> from conversation key to
  \<^verbatim>\<open>{ session, lastUsed }\<close>. A \<^verbatim>\<open>Map\<close> iterates in insertion order, so
  it is an association list here, oldest insertion first. Timestamps are the integer
  milliseconds of \<^verbatim>\<open>Date.now()\<close>; every call that reads the clock takes the value
  read as an argument. A session handle is an opaque identifier. The calls to
  \<^verbatim>\<open>session.dispose()\<close> and to the registered \<^verbatim>\<open>onSessionDelete\<close> callback are
  effects on the outside world: the state records them in two logs, in call order.
\<close>

type_synonym key = string
type_synonym handle = nat

record entry =
  session :: handle
  lastUsed :: int

record store =
  sessions :: "(key \<times> entry) list"
  disposed :: "handle list"
  notified :: "key list"

definition SESSION_TTL_MS :: int where
  "SESSION_TTL_MS = 30 * 60 * 1000"

definition SESSION_MAX :: nat where
  "SESSION_MAX = 20"

definition empty_store :: store where
  "empty_store = \<lparr>sessions = [], disposed = [], notified = []\<rparr>"

text \<open>\<^verbatim>\<open>Map.prototype.set\<close>: an existing key keeps its place and gets the new value, a
  new key goes to the end.\<close>

fun map_set :: "key \<Rightarrow> entry \<Rightarrow> (key \<times> entry) list \<Rightarrow> (key \<times> entry) list" where
  "map_set k v [] = [(k, v)]"
| "map_set k v ((k', v') # m) = (if k' = k then (k, v) # m else (k', v') # map_set k v m)"

definition map_delete :: "key \<Rightarrow> (key \<times> entry) list \<Rightarrow> (key \<times> entry) list" where
  "map_delete k m = filter (\<lambda>p. fst p \<noteq> k) m"

text \<open>\<^verbatim>\<open>getSession(key)\<close>: a hit refreshes \<^verbatim>\<open>lastUsed\<close> in place and returns the
  handle, a miss returns \<^verbatim>\<open>null\<close>.\<close>

definition getSession :: "key \<Rightarrow> int \<Rightarrow> store \<Rightarrow> handle option \<times> store" where
  "getSession k now s =
     (case map_of (sessions s) k of
        None \<Rightarrow> (None, s)
      | Some e \<Rightarrow> (Some (session e),
                   s\<lparr>sessions := map_set k (e\<lparr>lastUsed := now\<rparr>) (sessions s)\<rparr>))"

text \<open>\<^verbatim>\<open>deleteSession(key)\<close>: when the key is present, call \<^verbatim>\<open>dispose()\<close> on its
  session (an exception it throws is swallowed), remove the entry and call the
  \<^verbatim>\<open>onSessionDelete\<close> callback; otherwise nothing.\<close>

definition deleteSession :: "key \<Rightarrow> store \<Rightarrow> store" where
  "deleteSession k s =
     (case map_of (sessions s) k of
        None \<Rightarrow> s
      | Some e \<Rightarrow> s\<lparr>sessions := map_delete k (sessions s),
                     disposed := disposed s @ [session e],
                     notified := notified s @ [k]\<rparr>)"

text \<open>
  \<^verbatim>\<open>evictSessions()\<close>. The first loop walks the map and deletes each entry older than
  the time to live; it only ever deletes the entry it is visiting, so it visits exactly
  the entries present at its start. The second phase runs when more than
  \<^verbatim>\<open>SESSION_MAX\<close> entries are left: the entries are sorted by ascending
  \<^verbatim>\<open>lastUsed\<close> (\<^verbatim>\<open>Array.prototype.sort\<close> is stable, as is the insertion sort
  \<^const>\<open>sort_key\<close>) and the loop \<^verbatim>\<open>for (i = 0; i < sorted.length - SESSION_MAX; i++)\<close>
  deletes the keys of that many leading entries.
\<close>

definition expired :: "int \<Rightarrow> entry \<Rightarrow> bool" where
  "expired now e \<longleftrightarrow> now - lastUsed e > SESSION_TTL_MS"

definition sweep_step :: "int \<Rightarrow> key \<times> entry \<Rightarrow> store \<Rightarrow> store" where
  "sweep_step now p s = (if expired now (snd p) then deleteSession (fst p) s else s)"

definition sorted_entries :: "(key \<times> entry) list \<Rightarrow> (key \<times> entry) list" where
  "sorted_entries m = sort_key (\<lambda>p. lastUsed (snd p)) m"

definition evictSessions :: "int \<Rightarrow> store \<Rightarrow> store" where
  "evictSessions now s =
     (let s1 = fold (sweep_step now) (sessions s) s in
      if length (sessions s1) > SESSION_MAX then
        let sorted = sorted_entries (sessions s1) in
        fold (\<lambda>p. deleteSession (fst p)) (take (length sorted - SESSION_MAX) sorted) s1
      else s1)"

text \<open>\<^verbatim>\<open>setSession(key, session)\<close> stores the entry with the current time and runs an
  eviction pass, which reads the clock again.\<close>

definition setSession :: "key \<Rightarrow> handle \<Rightarrow> int \<Rightarrow> int \<Rightarrow> store \<Rightarrow> store" where
  "setSession k h now now' s =
     evictSessions now' (s\<lparr>sessions := map_set k \<lparr>session = h, lastUsed = now\<rparr> (sessions s)\<rparr>)"

definition getSessionCount :: "store \<Rightarrow> nat" where
  "getSessionCount s = length (sessions s)"

text \<open>A store for the examples: 23 sessions \<open>A\<close> to \<open>W\<close>, touched in pairs at
  0, 0, 1000, 1000, 2000, ...\<close>

definition demo_store :: store where
  "demo_store =
     \<lparr>sessions = map (\<lambda>i. ([char_of (65 + i)], \<lparr>session = i, lastUsed = 1000 * int (i div 2)\<rparr>)) [0..<23],
      disposed = [], notified = []\<rparr>"

section \<open>JavaScript values and strings\<close>

text \<open>
  A JavaScript string is a \<^typ>\<open>string\<close>, one \<^typ>\<open>char\<close> per code unit, for the
  code units below \<open>0x100\<close>; \<^verbatim>\<open>length\<close>, \<^verbatim>\<open>slice\<close> and \<^verbatim>\<open>includes\<close> count
  and compare code units. The fixed user-facing texts of the source that are not ASCII are
  opaque constants, spelled as the bytes of the source file.
\<close>

text \<open>
  The code units that \<^verbatim>\<open>String.prototype.trim\<close> strips are the white space and the
  line terminators of the language. Below \<open>0x100\<close> these are the space, the tab, the
  line feed, the vertical tab, the form feed, the carriage return and the no-break space
  \<open>U+00A0\<close>; the others (\<open>U+1680\<close>, \<open>U+2000\<close> to \<open>U+200A\<close>,
  \<open>U+2028\<close>, \<open>U+2029\<close>, \<open>U+202F\<close>, \<open>U+205F\<close>, \<open>U+3000\<close> and
  \<open>U+FEFF\<close>) lie above.
\<close>

definition is_space :: "char \<Rightarrow> bool" where
  "is_space c \<longleftrightarrow>
     c \<in> set [CHR 0x20, CHR 0x09, CHR 0x0A, CHR 0x0B, CHR 0x0C, CHR 0x0D, CHR 0xA0]"

text \<open>\<^verbatim>\<open>!s.trim()\<close>: nothing is left once the white space is trimmed.\<close>

definition blank :: "string \<Rightarrow> bool" where
  "blank s = list_all is_space s"

fun starts_with :: "string \<Rightarrow> string \<Rightarrow> bool" where
  "starts_with s [] = True"
| "starts_with [] (n # ns) = False"
| "starts_with (c # cs) (n # ns) = (c = n \<and> starts_with cs ns)"

text \<open>\<^verbatim>\<open>s.includes(sub)\<close>.\<close>

fun js_includes :: "string \<Rightarrow> string \<Rightarrow> bool" where
  "js_includes [] sub = (sub = [])"
| "js_includes (c # cs) sub = (starts_with (c # cs) sub \<or> js_includes cs sub)"

text \<open>
  The values that reach the error handling: what \<^verbatim>\<open>JSON.parse\<close> returns, and
  \<^verbatim>\<open>undefined\<close>. Numbers are integers here (status codes); an object is its list of
  members.
\<close>

datatype jv =
    JUndef
  | JNull
  | JBool bool
  | JNum int
  | JStr string
  | JArr "jv list"
  | JObj "(string \<times> jv) list"

definition truthy :: "jv \<Rightarrow> bool" where
  "truthy v = (case v of
      JUndef \<Rightarrow> False
    | JNull \<Rightarrow> False
    | JBool b \<Rightarrow> b
    | JNum n \<Rightarrow> n \<noteq> 0
    | JStr s \<Rightarrow> s \<noteq> []
    | JArr _ \<Rightarrow> True
    | JObj _ \<Rightarrow> True)"

text \<open>\<^verbatim>\<open>a || b\<close>.\<close>

definition js_or :: "jv \<Rightarrow> jv \<Rightarrow> jv" where
  "js_or a b = (if truthy a then a else b)"

datatype exn =
    TypeError
  | SyntaxError
  | AgentError jv jv
  | External string jv jv

text \<open>
  \<^const>\<open>AgentError\<close> is the \<^verbatim>\<open>Error\<close> that \<^verbatim>\<open>runAgent\<close> builds: the argument given to
  \<^verbatim>\<open>new Error\<close> (which the constructor turns into the message string) and the value stored
  in \<^verbatim>\<open>err.status\<close>. \<^const>\<open>External\<close> is an exception raised by a collaborator, with its
  \<^verbatim>\<open>name\<close>, \<^verbatim>\<open>message\<close> and \<^verbatim>\<open>status\<close>.
\<close>

definition exn_name :: "exn \<Rightarrow> string" where
  "exn_name e = (case e of
      TypeError \<Rightarrow> ''TypeError''
    | SyntaxError \<Rightarrow> ''SyntaxError''
    | AgentError _ _ \<Rightarrow> ''Error''
    | External n _ _ \<Rightarrow> n)"

definition exn_status :: "exn \<Rightarrow> jv" where
  "exn_status e = (case e of
      AgentError _ st \<Rightarrow> st
    | External _ _ st \<Rightarrow> st
    | _ \<Rightarrow> JUndef)"

text \<open>Reading a member that is not one of the built-in ones (the source reads
  \<^verbatim>\<open>error\<close>, \<^verbatim>\<open>message\<close>, \<^verbatim>\<open>code\<close> and \<^verbatim>\<open>status\<close>): \<^verbatim>\<open>v.k\<close> throws on
  \<^verbatim>\<open>null\<close> and \<^verbatim>\<open>undefined\<close>, \<^verbatim>\<open>v?.k\<close> gives \<^verbatim>\<open>undefined\<close> there.\<close>

definition js_prop :: "jv \<Rightarrow> string \<Rightarrow> jv" where
  "js_prop v k = (case v of
      JObj kvs \<Rightarrow> (case map_of kvs k of Some x \<Rightarrow> x | None \<Rightarrow> JUndef)
    | _ \<Rightarrow> JUndef)"

definition nullish :: "jv \<Rightarrow> bool" where
  "nullish v \<longleftrightarrow> v = JUndef \<or> v = JNull"

definition dot :: "jv \<Rightarrow> string \<Rightarrow> exn + jv" where
  "dot v k = (if nullish v then Inl TypeError else Inr (js_prop v k))"

definition opt :: "jv \<Rightarrow> string \<Rightarrow> jv" where
  "opt v k = (if nullish v then JUndef else js_prop v k)"

text \<open>
  \<^verbatim>\<open>v >= 500\<close>. The comparison converts \<open>v\<close> to a number; the conversion of a string
  or an array is the platform's and is the parameter \<open>S\<close> (\<open>None\<close> for \<^verbatim>\<open>NaN\<close>).
\<close>

definition to_number :: "(jv \<Rightarrow> int option) \<Rightarrow> jv \<Rightarrow> int option" where
  "to_number S v = (case v of
      JUndef \<Rightarrow> None
    | JNull \<Rightarrow> Some 0
    | JBool b \<Rightarrow> Some (if b then 1 else 0)
    | JNum n \<Rightarrow> Some n
    | JObj _ \<Rightarrow> None
    | _ \<Rightarrow> S v)"

definition ge500 :: "(jv \<Rightarrow> int option) \<Rightarrow> jv \<Rightarrow> bool" where
  "ge500 S v = (case to_number S v of None \<Rightarrow> False | Some n \<Rightarrow> n \<ge> 500)"

section \<open>Error classification (src/agent.js, the subscription callback of runAgent)\<close>

definition MSG_RATE_LIMITED :: string where
  "MSG_RATE_LIMITED = [CHR 0xE8, CHR 0xAF, CHR 0xB7, CHR 0xE6, CHR 0xB1, CHR 0x82, CHR 0xE8, CHR 0xBF,
     CHR 0x87, CHR 0xE4, CHR 0xBA, CHR 0x8E, CHR 0xE9, CHR 0xA2, CHR 0x91, CHR 0xE7, CHR 0xB9, CHR 0x81,
     CHR 0xE6, CHR 0x88, CHR 0x96, CHR 0xE9, CHR 0x85, CHR 0x8D, CHR 0xE9, CHR 0xA2, CHR 0x9D, CHR 0xE5,
     CHR 0xB7, CHR 0xB2, CHR 0xE7, CHR 0x94, CHR 0xA8, CHR 0xE5, CHR 0xAE, CHR 0x8C]"

definition MSG_UNAVAILABLE :: string where
  "MSG_UNAVAILABLE = [CHR 0x41, CHR 0x49, CHR 0x20, CHR 0xE6, CHR 0x9C, CHR 0x8D, CHR 0xE5, CHR 0x8A,
     CHR 0xA1, CHR 0xE6, CHR 0x9A, CHR 0x82, CHR 0xE6, CHR 0x97, CHR 0xB6, CHR 0xE4, CHR 0xB8, CHR 0x8D,
     CHR 0xE5, CHR 0x8F, CHR 0xAF, CHR 0xE7, CHR 0x94, CHR 0xA8]"

definition MSG_FAILED :: string where
  "MSG_FAILED = [CHR 0x41, CHR 0x49, CHR 0x20, CHR 0xE8, CHR 0xAF, CHR 0xB7, CHR 0xE6, CHR 0xB1, CHR 0x82,
     CHR 0xE5, CHR 0xA4, CHR 0xB1, CHR 0xE8, CHR 0xB4, CHR 0xA5]"

text \<open>The object literal \<^verbatim>\<open>{ status: st, message: m }\<close>.\<close>

definition mk_error :: "jv \<Rightarrow> jv \<Rightarrow> jv" where
  "mk_error st m = JObj [(''status'', st), (''message'', m)]"

text \<open>The \<^verbatim>\<open>message_end\<close> branch, for an event whose \<^verbatim>\<open>message.errorMessage\<close> is the
  non-empty string \<open>msg\<close>.\<close>

definition classify_message_end :: "string \<Rightarrow> jv" where
  "classify_message_end msg =
     (if js_includes msg ''quota'' \<or> js_includes msg ''429'' then
        mk_error (JNum 429) (JStr MSG_RATE_LIMITED)
      else if js_includes msg ''500'' \<or> js_includes msg ''unavailable'' then
        mk_error (JNum 500) (JStr MSG_UNAVAILABLE)
      else mk_error (JNum 0) (JStr (take 200 msg)))"

text \<open>
  The \<^verbatim>\<open>auto_retry_start\<close> branch. \<open>em\<close> is \<^verbatim>\<open>event.errorMessage\<close> (\<open>None\<close> when the
  event has none). \<^verbatim>\<open>JSON.parse\<close> is the platform's: the parameter \<open>P\<close> gives its result
  on the value it is applied to, \<open>None\<close> when it throws. \<open>retry_body\<close> is the
  \<^verbatim>\<open>try\<close> block, \<open>Inl\<close> when it throws; \<open>on_auto_retry_start\<close> adds the
  \<^verbatim>\<open>catch\<close>.
\<close>

definition raw_message :: "string option \<Rightarrow> jv" where
  "raw_message em = (case em of None \<Rightarrow> JUndef | Some m \<Rightarrow> JStr m)"

definition retry_body ::
  "(jv \<Rightarrow> jv option) \<Rightarrow> (jv \<Rightarrow> int option) \<Rightarrow> string option \<Rightarrow> exn + jv" where
  "retry_body P S em =
     (case P (js_or (raw_message em) (JStr ''{}'')) of
        None \<Rightarrow> Inl SyntaxError
      | Some errData \<Rightarrow>
          (case dot errData ''error'' of
             Inl x \<Rightarrow> Inl x
           | Inr e \<Rightarrow>
               (case P (js_or (opt e ''message'') (JStr ''{}'')) of
                  None \<Rightarrow> Inl SyntaxError
                | Some innerErr \<Rightarrow>
                    (case dot innerErr ''error'' of
                       Inl x \<Rightarrow> Inl x
                     | Inr ie \<Rightarrow>
                         (if opt ie ''code'' = JNum 429 then
                            Inr (mk_error (JNum 429) (JStr MSG_RATE_LIMITED))
                          else if ge500 S (opt ie ''code'') then
                            Inr (mk_error (opt ie ''code'') (JStr MSG_UNAVAILABLE))
                          else
                            Inr (mk_error (js_or (opt ie ''code'') (JNum 0))
                                   (js_or (opt ie ''message'') (raw_message em))))))))"

definition retry_fallback :: "string option \<Rightarrow> jv" where
  "retry_fallback em = mk_error (JNum 0) (raw_message em)"

definition on_auto_retry_start ::
  "(jv \<Rightarrow> jv option) \<Rightarrow> (jv \<Rightarrow> int option) \<Rightarrow> string option \<Rightarrow> exn + jv" where
  "on_auto_retry_start P S em =
     (case retry_body P S em of
        Inl _ \<Rightarrow> Inr (retry_fallback em)
      | Inr e \<Rightarrow> Inr e)"

text \<open>
  The classification of a \<^verbatim>\<open>message_end\<close> error as the specification words it: a
  message "indicates an HTTP status of 500 or greater" when the numeral of a status code
  from 500 to 599 occurs in it.
\<close>

definition status_numeral :: "nat \<Rightarrow> string" where
  "status_numeral n = [char_of (48 + n div 100), char_of (48 + n div 10 mod 10), char_of (48 + n mod 10)]"

definition indicates_5xx :: "string \<Rightarrow> bool" where
  "indicates_5xx msg = list_ex (\<lambda>n. js_includes msg (status_numeral n)) [500..<600]"

definition classify_as_specified :: "string \<Rightarrow> jv" where
  "classify_as_specified msg =
     (if js_includes msg ''quota'' \<or> js_includes msg ''429'' then
        mk_error (JNum 429) (JStr MSG_RATE_LIMITED)
      else if indicates_5xx msg \<or> js_includes msg ''unavailable'' then
        mk_error (JNum 500) (JStr MSG_UNAVAILABLE)
      else mk_error (JNum 0) (JStr (take 200 msg)))"

text \<open>
  The error that the doubly nested payload of an \<^verbatim>\<open>auto_retry_start\<close> event carries,
  as the specification describes the nesting: the event's text parses to an object
  whose \<^verbatim>\<open>error.message\<close> is a text that parses to an object with an \<^verbatim>\<open>error\<close>
  member. \<open>None\<close> when a level is missing or does not parse.
\<close>

definition inner_error :: "(jv \<Rightarrow> jv option) \<Rightarrow> string option \<Rightarrow> jv option" where
  "inner_error P em =
     (case em of
        None \<Rightarrow> None
      | Some m \<Rightarrow>
          (case P (JStr m) of
             None \<Rightarrow> None
           | Some d \<Rightarrow>
               if truthy (js_prop (js_prop d ''error'') ''message'') then
                 (case P (js_prop (js_prop d ''error'') ''message'') of
                    None \<Rightarrow> None
                  | Some i \<Rightarrow>
                      if nullish (js_prop i ''error'') then None
                      else Some (js_prop i ''error''))
               else None))"

text \<open>A fragment of \<^verbatim>\<open>JSON.parse\<close> for the examples: a few JSON texts, and
  \<open>None\<close> (a \<^verbatim>\<open>SyntaxError\<close>) for everything else. \<open>INNER_TEXT\<close> is
  \<^verbatim>\<open>{"error":{"code":503}}\<close> and \<open>OUTER_TEXT\<close> is the object whose
  \<^verbatim>\<open>error.message\<close> is that text, with its quotes escaped.\<close>

definition DQ :: string where
  "DQ = [CHR 0x22]"

definition BSDQ :: string where
  "BSDQ = [CHR 0x5C, CHR 0x22]"

definition INNER_TEXT :: string where
  "INNER_TEXT = ''{'' @ DQ @ ''error'' @ DQ @ '':{'' @ DQ @ ''code'' @ DQ @ '':503}}''"

definition OUTER_TEXT :: string where
  "OUTER_TEXT = ''{'' @ DQ @ ''error'' @ DQ @ '':{'' @ DQ @ ''message'' @ DQ @ '':'' @ DQ @
     ''{'' @ BSDQ @ ''error'' @ BSDQ @ '':{'' @ BSDQ @ ''code'' @ BSDQ @ '':503}}'' @ DQ @ ''}}''"

definition toy_parse :: "jv \<Rightarrow> jv option" where
  "toy_parse v =
     (if v = JStr ''{}'' then Some (JObj [])
      else if v = JStr ''null'' then Some JNull
      else if v = JStr ''[]'' then Some (JArr [])
      else if v = JStr ''503'' then Some (JNum 503)
      else if v = JStr INNER_TEXT then Some (JObj [(''error'', JObj [(''code'', JNum 503)])])
      else if v = JStr OUTER_TEXT then
        Some (JObj [(''error'', JObj [(''message'', JStr INNER_TEXT)])])
      else None)"

definition toy_number :: "jv \<Rightarrow> int option" where
  "toy_number v = (if v = JStr ''503'' then Some 503 else None)"

section \<open>The streaming loop of runAgent (src/agent.js)\<close>

text \<open>
  \<^verbatim>\<open>runAgent\<close> keeps its state in local variables that its closures share; the record
  below holds them. A timer variable is \<open>True\<close> while an interval is registered in it,
  a subscription flag while its listener is still subscribed. The calls made to the
  Telegram API are appended to \<open>calls\<close> in the order they are issued; whether such a
  call succeeds is decided outside, so each function that awaits one takes its
  outcome as an argument. \<^verbatim>\<open>convertToTelegramMarkdown\<close> (src/utils.js) rewrites
  headings and bold markers by regular expressions; it is the parameter \<open>md\<close>
  throughout.
\<close>

definition TG_MAX_LEN :: nat where
  "TG_MAX_LEN = 4000"

datatype parse_mode = Markdown | NoParseMode

datatype keyboard = NoKeyboard | CancelKb | DoneKb | RetryKb

datatype call =
    Reply string keyboard
  | EditMessageText "int option" nat string parse_mode keyboard
  | DeleteMessage "int option" nat
  | SendChatAction "int option"
  | SendLongText string keyboard

record agent_state =
  fullResponse :: string
  toolName :: string
  lastError :: jv
  streamMsgId :: "nat option"
  lastDisplayedText :: string
  updateTimer :: bool
  typingTimer :: bool
  loadingTimer :: bool
  loadingFrame :: nat
  isUpdating :: bool
  awaiting :: "(parse_mode \<times> string) option"
  unsub_live :: bool
  toolUnsub_live :: bool
  chatId :: "int option"
  calls :: "call list"

text \<open>
  \<open>awaiting\<close> is the edit that a running \<^verbatim>\<open>doUpdate\<close> is suspended on: the attempt
  (with or without \<^verbatim>\<open>parse_mode\<close>) and the \<^verbatim>\<open>displayText\<close> it computed.
\<close>

definition init_state :: "int option \<Rightarrow> agent_state" where
  "init_state chat =
     \<lparr>fullResponse = [], toolName = [], lastError = JNull, streamMsgId = None,
      lastDisplayedText = [], updateTimer = False, typingTimer = False, loadingTimer = False,
      loadingFrame = 0, isUpdating = False, awaiting = None, unsub_live = True,
      toolUnsub_live = True, chatId = chat, calls = []\<rparr>"

definition THINKING :: string where
  "THINKING = [CHR 0xF0, CHR 0x9F, CHR 0x92, CHR 0xAD, CHR 0x20, CHR 0xE6, CHR 0x80, CHR 0x9D,
     CHR 0xE8, CHR 0x80, CHR 0x83, CHR 0xE4, CHR 0xB8, CHR 0xAD]"

definition loadingFrames :: "string list" where
  "loadingFrames = [THINKING, THINKING @ ''.'', THINKING @ ''..'', THINKING @ ''...'']"

definition CURSOR :: string where
  "CURSOR = [CHR 0x20, CHR 0xE2, CHR 0x96, CHR 0x8C]"

definition NL2 :: string where
  "NL2 = [CHR 0x0A, CHR 0x0A]"

text \<open>The tool line, a wrench sign, the name and three dots.\<close>

definition tool_status :: "string \<Rightarrow> string" where
  "tool_status name = [CHR 0xF0, CHR 0x9F, CHR 0x94, CHR 0xA7, CHR 0x20] @ name @ ''...''"

definition emit :: "call \<Rightarrow> agent_state \<Rightarrow> agent_state" where
  "emit c s = s\<lparr>calls := calls s @ [c]\<rparr>"

text \<open>\<^verbatim>\<open>streamMsgId && chatId\<close>: both are set and neither is zero.\<close>

definition both :: "nat option \<Rightarrow> int option \<Rightarrow> (int \<times> nat) option" where
  "both mid chat =
     (case (mid, chat) of
        (Some m, Some c) \<Rightarrow> if m \<noteq> 0 \<and> c \<noteq> 0 then Some (c, m) else None
      | _ \<Rightarrow> None)"

definition target :: "agent_state \<Rightarrow> (int \<times> nat) option" where
  "target s = both (streamMsgId s) (chatId s)"

definition has_msg :: "agent_state \<Rightarrow> bool" where
  "has_msg s = (case streamMsgId s of Some m \<Rightarrow> m \<noteq> 0 | None \<Rightarrow> False)"

definition sendTyping :: "agent_state \<Rightarrow> agent_state" where
  "sendTyping s = emit (SendChatAction (chatId s)) s"

definition startTypingTimer :: "agent_state \<Rightarrow> agent_state" where
  "startTypingTimer s = (if typingTimer s then s else (sendTyping s)\<lparr>typingTimer := True\<rparr>)"

definition stopTypingTimer :: "agent_state \<Rightarrow> agent_state" where
  "stopTypingTimer s = s\<lparr>typingTimer := False\<rparr>"

definition startLoadingAnimation :: "agent_state \<Rightarrow> agent_state" where
  "startLoadingAnimation s = s\<lparr>loadingTimer := True\<rparr>"

definition stopLoadingAnimation :: "agent_state \<Rightarrow> agent_state" where
  "stopLoadingAnimation s = s\<lparr>loadingTimer := False\<rparr>"

definition startUpdateTimer :: "agent_state \<Rightarrow> agent_state" where
  "startUpdateTimer s = s\<lparr>updateTimer := True\<rparr>"

definition stopUpdateTimer :: "agent_state \<Rightarrow> agent_state" where
  "stopUpdateTimer s = s\<lparr>updateTimer := False\<rparr>"

text \<open>\<^verbatim>\<open>initStreamMsg\<close>: \<open>r\<close> is the \<^verbatim>\<open>message_id\<close> of the placeholder that
  \<^verbatim>\<open>ctx.reply\<close> returned, \<open>None\<close> when the call failed.\<close>

definition initStreamMsg :: "nat option \<Rightarrow> agent_state \<Rightarrow> agent_state" where
  "initStreamMsg r s =
     (if has_msg s then s
      else (let s1 = emit (Reply (loadingFrames ! 0) NoKeyboard) s in
            case r of None \<Rightarrow> s1 | Some i \<Rightarrow> s1\<lparr>streamMsgId := Some i\<rparr>))"

text \<open>\<^verbatim>\<open>updateLoadingAnimation\<close>, one tick of the 400 ms interval. Nothing follows its
  awaited edit, so the tick is one step.\<close>

definition updateLoadingAnimation :: "agent_state \<Rightarrow> agent_state" where
  "updateLoadingAnimation s =
     (case streamMsgId s of
        None \<Rightarrow> s
      | Some m \<Rightarrow>
          if m = 0 then s
          else (let frame = (loadingFrame s + 1) mod length loadingFrames;
                    s1 = s\<lparr>loadingFrame := frame\<rparr>;
                    text = (if toolName s \<noteq> [] then tool_status (toolName s)
                            else loadingFrames ! frame)
                in if \<not> blank (fullResponse s) then
                     (if toolName s \<noteq> [] then
                        emit (EditMessageText (chatId s) m
                                (fullResponse s @ NL2 @ tool_status (toolName s))
                                NoParseMode NoKeyboard) s1
                      else s1)
                   else emit (EditMessageText (chatId s) m text NoParseMode NoKeyboard) s1))"

text \<open>The text that \<^verbatim>\<open>doUpdate\<close> shows: the response, or its last
  \<^verbatim>\<open>TG_MAX_LEN - 100\<close> code units after a mark, then the tool line, then the cursor.\<close>

definition render :: "string \<Rightarrow> string \<Rightarrow> string" where
  "render full tool =
     (let shown = (if length full > TG_MAX_LEN - 100
                   then ''...'' @ NL2 @ drop (length full - (TG_MAX_LEN - 100)) full
                   else full)
      in (if tool \<noteq> [] \<and> blank full then tool_status tool
          else if tool \<noteq> [] then shown @ NL2 @ tool_status tool
          else shown) @ CURSOR)"

definition displayText :: "agent_state \<Rightarrow> string" where
  "displayText s = render (fullResponse s) (toolName s)"

text \<open>
  \<^verbatim>\<open>doUpdate\<close> is asynchronous. \<open>doUpdate_start\<close> is its synchronous part, up to the
  first awaited \<^verbatim>\<open>editMessageText\<close> (or to its end, when there is no message to edit);
  \<open>doUpdate_resume\<close> continues it when the awaited edit has settled, \<open>ok\<close> telling
  whether the edit succeeded. \<^verbatim>\<open>lastDisplayedText\<close> is assigned after the await, from the
  response accumulated by then.
\<close>

definition doUpdate_start :: "(string \<Rightarrow> string) \<Rightarrow> agent_state \<Rightarrow> agent_state" where
  "doUpdate_start md s =
     (if isUpdating s then s
      else if fullResponse s = lastDisplayedText s \<and> toolName s = [] then s
      else (let s1 = (if \<not> blank (fullResponse s) then stopLoadingAnimation s else s) in
            case target s1 of
              None \<Rightarrow> s1
            | Some (c, m) \<Rightarrow>
                (emit (EditMessageText (Some c) m (md (displayText s1)) Markdown NoKeyboard)
                   (sendTyping s1))
                \<lparr>isUpdating := True, awaiting := Some (Markdown, displayText s1)\<rparr>))"

definition doUpdate_resume :: "bool \<Rightarrow> agent_state \<Rightarrow> agent_state" where
  "doUpdate_resume ok s =
     (case awaiting s of
        None \<Rightarrow> s
      | Some (mode, text) \<Rightarrow>
          if ok then
            s\<lparr>lastDisplayedText := fullResponse s, isUpdating := False, awaiting := None\<rparr>
          else (case mode of
                  Markdown \<Rightarrow>
                    (case target s of
                       None \<Rightarrow> s\<lparr>isUpdating := False, awaiting := None\<rparr>
                     | Some (c, m) \<Rightarrow>
                         (emit (EditMessageText (Some c) m text NoParseMode NoKeyboard) s)
                         \<lparr>awaiting := Some (NoParseMode, text)\<rparr>)
                | NoParseMode \<Rightarrow> s\<lparr>isUpdating := False, awaiting := None\<rparr>))"

text \<open>\<^verbatim>\<open>await doUpdate()\<close> with nothing else running in between. The call is
  suspended when its synchronous part has raised \<^verbatim>\<open>isUpdating\<close>; then the first
  edit settles with \<open>r1\<close> and the plain-text retry, if one is made, with \<open>r2\<close>.\<close>

definition doUpdate :: "(string \<Rightarrow> string) \<Rightarrow> bool \<Rightarrow> bool \<Rightarrow> agent_state \<Rightarrow> agent_state" where
  "doUpdate md r1 r2 s =
     (let s1 = doUpdate_start md s in
      if isUpdating s1 \<and> \<not> isUpdating s then
        (let s2 = doUpdate_resume r1 s1 in
         if isUpdating s2 then doUpdate_resume r2 s2 else s2)
      else s1)"

text \<open>
  src/agent.js holds a second, earlier revision of \<^verbatim>\<open>runAgent\<close>, without the
  loading animation and the tool line; its listener classifies errors as the first does.
  Its \<^verbatim>\<open>doUpdate\<close> differs: the skip test does not look at the tool, and
  \<^verbatim>\<open>lastDisplayedText\<close> is assigned before the edit is tried. \<open>doUpdate_old\<close> is
  that function awaited with nothing else running; \<open>r1\<close> is the outcome of the edit
  with \<^verbatim>\<open>parse_mode\<close> (the outcome of the plain-text retry changes nothing).
\<close>

definition doUpdate_old :: "(string \<Rightarrow> string) \<Rightarrow> bool \<Rightarrow> agent_state \<Rightarrow> agent_state" where
  "doUpdate_old md r1 s =
     (if isUpdating s then s
      else if fullResponse s = lastDisplayedText s then s
      else (let s1 = s\<lparr>lastDisplayedText := fullResponse s\<rparr>;
                text = render (fullResponse s) []
            in case target s1 of
                 None \<Rightarrow> s1
               | Some (c, m) \<Rightarrow>
                   (let s2 = emit (EditMessageText (Some c) m (md text) Markdown NoKeyboard)
                               (sendTyping s1)
                    in if r1 then s2
                       else emit (EditMessageText (Some c) m text NoParseMode NoKeyboard) s2)))"

subsection \<open>The two listeners\<close>

datatype ame =
    TextDelta string
  | TextStart
  | TextEnd
  | ToolcallStart "string option" "string option"
  | ToolcallDelta
  | ToolcallEnd
  | OtherAme

datatype event =
    MessageEnd "string option"
  | ErrorEvent jv
  | AutoRetryStart "string option"
  | MessageUpdate "ame option"
  | ToolExecutionStart
  | ToolExecutionEnd
  | OtherEvent

text \<open>
  \<^verbatim>\<open>MessageEnd em\<close> carries \<^verbatim>\<open>event.message?.errorMessage\<close>, \<^verbatim>\<open>MessageUpdate a\<close>
  carries \<^verbatim>\<open>event.assistantMessageEvent\<close>, and \<^verbatim>\<open>ToolcallStart n t\<close> the \<^verbatim>\<open>name\<close>
  and \<^verbatim>\<open>toolName\<close> of that event; \<open>None\<close> is a missing member.
\<close>

text \<open>\<^verbatim>\<open>e.name || e.toolName || 'tool'\<close>.\<close>

definition tool_label :: "string option \<Rightarrow> string option \<Rightarrow> string" where
  "tool_label n t =
     (case n of
        Some x \<Rightarrow> if x \<noteq> [] then x
                  else (case t of Some y \<Rightarrow> if y \<noteq> [] then y else ''tool'' | None \<Rightarrow> ''tool'')
      | None \<Rightarrow> (case t of Some y \<Rightarrow> if y \<noteq> [] then y else ''tool'' | None \<Rightarrow> ''tool''))"

text \<open>The first listener (the one \<^verbatim>\<open>unsub\<close> removes); \<open>Inl\<close> when it throws.\<close>

definition listener ::
  "(jv \<Rightarrow> jv option) \<Rightarrow> (jv \<Rightarrow> int option) \<Rightarrow> (string \<Rightarrow> string) \<Rightarrow> event \<Rightarrow> agent_state
     \<Rightarrow> exn + agent_state" where
  "listener P S md ev s =
     (case ev of
        MessageEnd em \<Rightarrow>
          (case em of
             None \<Rightarrow> Inr s
           | Some msg \<Rightarrow>
               if msg \<noteq> [] then Inr (s\<lparr>lastError := classify_message_end msg\<rparr>) else Inr s)
      | ErrorEvent v \<Rightarrow> Inr (s\<lparr>lastError := v\<rparr>)
      | AutoRetryStart em \<Rightarrow>
          (case on_auto_retry_start P S em of
             Inl x \<Rightarrow> Inl x
           | Inr e \<Rightarrow> Inr (s\<lparr>lastError := e\<rparr>))
      | MessageUpdate None \<Rightarrow> Inl TypeError
      | MessageUpdate (Some a) \<Rightarrow>
          (case a of
             TextDelta d \<Rightarrow> Inr (startUpdateTimer (s\<lparr>fullResponse := fullResponse s @ d\<rparr>))
           | ToolcallStart n t \<Rightarrow> Inr (doUpdate_start md (s\<lparr>toolName := tool_label n t\<rparr>))
           | _ \<Rightarrow> Inr s)
      | _ \<Rightarrow> Inr s)"

text \<open>The second listener (the one \<^verbatim>\<open>toolUnsub\<close> removes).\<close>

definition tool_listener :: "(string \<Rightarrow> string) \<Rightarrow> event \<Rightarrow> agent_state \<Rightarrow> agent_state" where
  "tool_listener md ev s =
     (case ev of
        ToolExecutionEnd \<Rightarrow> doUpdate_start md (s\<lparr>toolName := []\<rparr>)
      | _ \<Rightarrow> s)"

text \<open>An event of the session reaches the listeners that are still subscribed, in the
  order they subscribed.\<close>

definition on_event ::
  "(jv \<Rightarrow> jv option) \<Rightarrow> (jv \<Rightarrow> int option) \<Rightarrow> (string \<Rightarrow> string) \<Rightarrow> event \<Rightarrow> agent_state
     \<Rightarrow> exn + agent_state" where
  "on_event P S md ev s =
     (case (if unsub_live s then listener P S md ev s else Inr s) of
        Inl x \<Rightarrow> Inl x
      | Inr s1 \<Rightarrow> Inr (if toolUnsub_live s1 then tool_listener md ev s1 else s1))"

subsection \<open>What can happen while the prompt is awaited\<close>

datatype input =
    Ev event
  | UpdateTick
  | TypingTick
  | LoadingTick
  | EditSettled bool

text \<open>An interval fires only while it is registered; \<open>EditSettled ok\<close> is the
  completion of the edit that a suspended \<^verbatim>\<open>doUpdate\<close> awaits.\<close>

definition step ::
  "(jv \<Rightarrow> jv option) \<Rightarrow> (jv \<Rightarrow> int option) \<Rightarrow> (string \<Rightarrow> string) \<Rightarrow> input \<Rightarrow> agent_state
     \<Rightarrow> exn + agent_state" where
  "step P S md i s =
     (case i of
        Ev ev \<Rightarrow> on_event P S md ev s
      | UpdateTick \<Rightarrow> Inr (if updateTimer s then doUpdate_start md s else s)
      | TypingTick \<Rightarrow> Inr (if typingTimer s then sendTyping s else s)
      | LoadingTick \<Rightarrow> Inr (if loadingTimer s then updateLoadingAnimation s else s)
      | EditSettled ok \<Rightarrow> Inr (doUpdate_resume ok s))"

fun run_inputs ::
  "(jv \<Rightarrow> jv option) \<Rightarrow> (jv \<Rightarrow> int option) \<Rightarrow> (string \<Rightarrow> string) \<Rightarrow> input list \<Rightarrow> agent_state
     \<Rightarrow> exn + agent_state" where
  "run_inputs P S md [] s = Inr s"
| "run_inputs P S md (i # is) s =
     (case step P S md i s of Inl x \<Rightarrow> Inl x | Inr s1 \<Rightarrow> run_inputs P S md is s1)"

subsection \<open>The body of runAgent around the prompt\<close>

text \<open>The statements of the \<^verbatim>\<open>try\<close> block before \<^verbatim>\<open>session.prompt\<close>.\<close>

definition begin_run :: "nat option \<Rightarrow> agent_state \<Rightarrow> agent_state" where
  "begin_run r s =
     startUpdateTimer (startLoadingAnimation (initStreamMsg r (startTypingTimer s)))"

text \<open>
  The \<^verbatim>\<open>finally\<close> block. \<open>cleared\<close> is its synchronous part: the three timers
  are stopped and both listeners unsubscribed. \<open>finalize\<close> goes on to the point
  where \<^verbatim>\<open>await doUpdate()\<close> suspends or returns; \<open>finally_block\<close> is the whole
  block when nothing else runs while that \<^verbatim>\<open>doUpdate\<close> is awaited.
\<close>

definition cleared :: "agent_state \<Rightarrow> agent_state" where
  "cleared s =
     (stopLoadingAnimation (stopTypingTimer (stopUpdateTimer s)))
       \<lparr>unsub_live := False, toolUnsub_live := False\<rparr>"

definition finalize :: "(string \<Rightarrow> string) \<Rightarrow> agent_state \<Rightarrow> agent_state" where
  "finalize md s = doUpdate_start md (cleared s)"

definition finally_block :: "(string \<Rightarrow> string) \<Rightarrow> bool \<Rightarrow> bool \<Rightarrow> agent_state \<Rightarrow> agent_state" where
  "finally_block md r1 r2 s = doUpdate md r1 r2 (cleared s)"

datatype prompt_outcome = Resolved | Rejected exn

record run_result =
  response :: string
  resultMsgId :: "nat option"

text \<open>
  The statements after the \<^verbatim>\<open>finally\<close> block, reached when \<^verbatim>\<open>session.prompt\<close>
  returned. \<open>del_ok\<close>, \<open>rich_ok\<close> and \<open>plain_ok\<close> are the outcomes of the
  \<^verbatim>\<open>deleteMessage\<close>, of the edit with \<^verbatim>\<open>parse_mode\<close> and of the edit without.
\<close>

definition plain_retry :: "(string \<Rightarrow> string) \<Rightarrow> bool \<Rightarrow> int \<Rightarrow> nat \<Rightarrow> agent_state
     \<Rightarrow> (exn + run_result) \<times> agent_state" where
  "plain_retry md plain_ok c m s =
     (let s1 = emit (EditMessageText (Some c) m (fullResponse s) NoParseMode NoKeyboard) s in
      if plain_ok then (Inr \<lparr>response = fullResponse s, resultMsgId = streamMsgId s\<rparr>, s1)
      else (Inr \<lparr>response = md (fullResponse s), resultMsgId = streamMsgId s\<rparr>, s1))"

definition after_finally ::
  "(string \<Rightarrow> string) \<Rightarrow> bool \<Rightarrow> bool \<Rightarrow> bool \<Rightarrow> agent_state \<Rightarrow> (exn + run_result) \<times> agent_state" where
  "after_finally md del_ok rich_ok plain_ok s =
     (if truthy (lastError s) \<and> blank (fullResponse s) then
        (Inl (AgentError (js_or (js_prop (lastError s) ''message'') (JStr MSG_FAILED))
                         (js_prop (lastError s) ''status'')),
         (case target s of
            None \<Rightarrow> s
          | Some (c, m) \<Rightarrow> emit (DeleteMessage (Some c) m) s))
      else
        (case target s of
           None \<Rightarrow> (Inr \<lparr>response = md (fullResponse s), resultMsgId = streamMsgId s\<rparr>, s)
         | Some (c, m) \<Rightarrow>
             if blank (fullResponse s) then
               (Inr \<lparr>response = md (fullResponse s), resultMsgId = streamMsgId s\<rparr>, s)
             else if length (fullResponse s) > TG_MAX_LEN then
               (let s1 = emit (DeleteMessage (Some c) m) s in
                if del_ok then (Inr \<lparr>response = md (fullResponse s), resultMsgId = None\<rparr>, s1)
                else plain_retry md plain_ok c m s1)
             else
               (let s1 = emit (EditMessageText (Some c) m (md (fullResponse s)) Markdown NoKeyboard) s in
                if rich_ok then
                  (Inr \<lparr>response = md (fullResponse s), resultMsgId = streamMsgId s\<rparr>, s1)
                else plain_retry md plain_ok c m s1)))"

text \<open>How \<^verbatim>\<open>runAgent\<close> ends once the \<^verbatim>\<open>finally\<close> block is done: an exception of
  \<^verbatim>\<open>session.prompt\<close> goes on to the caller, otherwise the statements above run.\<close>

definition end_run ::
  "(string \<Rightarrow> string) \<Rightarrow> prompt_outcome \<Rightarrow> bool \<Rightarrow> bool \<Rightarrow> bool \<Rightarrow> agent_state
     \<Rightarrow> (exn + run_result) \<times> agent_state" where
  "end_run md outcome del_ok rich_ok plain_ok s =
     (case outcome of
        Rejected e \<Rightarrow> (Inl e, s)
      | Resolved \<Rightarrow> after_finally md del_ok rich_ok plain_ok s)"

subsection \<open>Observations on a state\<close>

definition is_edit :: "call \<Rightarrow> bool" where
  "is_edit c = (case c of EditMessageText _ _ _ _ _ \<Rightarrow> True | _ \<Rightarrow> False)"

text \<open>The edits issued so far, in order.\<close>

definition edits :: "agent_state \<Rightarrow> call list" where
  "edits s = filter is_edit (calls s)"

text \<open>No \<^verbatim>\<open>doUpdate\<close> is suspended.\<close>

definition idle :: "agent_state \<Rightarrow> bool" where
  "idle s \<longleftrightarrow> \<not> isUpdating s \<and> awaiting s = None"

text \<open>Every timer is stopped and every listener unsubscribed.\<close>

definition quiet :: "agent_state \<Rightarrow> bool" where
  "quiet s \<longleftrightarrow> \<not> updateTimer s \<and> \<not> typingTimer s \<and> \<not> loadingTimer s \<and>
     \<not> unsub_live s \<and> \<not> toolUnsub_live s"

definition is_tick_or_event :: "input \<Rightarrow> bool" where
  "is_tick_or_event i = (case i of EditSettled _ \<Rightarrow> False | _ \<Rightarrow> True)"

text \<open>A state for the examples: the placeholder is message 7 of chat 5.\<close>

definition demo_state :: agent_state where
  "demo_state = begin_run (Some 7) (init_state (Some 5))"

text \<open>The same with the response \<open>x\<close> accumulated, and with the tool \<open>bash\<close>
  running as well.\<close>

definition demo_text_state :: agent_state where
  "demo_text_state = demo_state\<lparr>fullResponse := ''x''\<rparr>"

definition demo_tool_state :: agent_state where
  "demo_tool_state = demo_state\<lparr>fullResponse := ''x'', toolName := ''bash''\<rparr>"

text \<open>A run in which the update timer fires between two deltas: the update it starts
  is still awaiting its edit when the second delta arrives.\<close>

definition demo_inflight :: "exn + agent_state" where
  "demo_inflight =
     run_inputs toy_parse toy_number (\<lambda>t. t)
       [Ev (MessageUpdate (Some (TextDelta ''Hi''))), UpdateTick,
        Ev (MessageUpdate (Some (TextDelta '' there'')))]
       demo_state"

text \<open>The same run when the awaited edit has then succeeded: the update assigns
  \<^verbatim>\<open>lastDisplayedText\<close> from the response as it is after the await.\<close>

definition demo_stale :: "exn + agent_state" where
  "demo_stale =
     run_inputs toy_parse toy_number (\<lambda>t. t)
       [Ev (MessageUpdate (Some (TextDelta ''Hi''))), UpdateTick,
        Ev (MessageUpdate (Some (TextDelta '' there''))), EditSettled True]
       demo_state"



text \<open>The events of the example of the specification: two deltas and the end of the
  message.\<close>

definition hi_there :: "input list" where
  "hi_there =
     [Ev (MessageUpdate (Some (TextDelta ''Hi''))), Ev (MessageUpdate (Some (TextDelta '' there''))),
      Ev (MessageEnd None)]"

section \<open>The task runner: processUserMessage (src/telegram/messages.js)\<close>

text \<open>
  \<^verbatim>\<open>runningTasks\<close> and \<^verbatim>\<open>lastMessages\<close> are the two maps that \<^verbatim>\<open>main\<close> creates
  and hands to the handlers; only \<^verbatim>\<open>processUserMessage\<close> writes to
  \<^verbatim>\<open>runningTasks\<close>. The handler is asynchronous, so it is cut at its awaits into the
  functions below; between two of them the handlers of other updates may run. The
  state also holds the session store, the timeout timers that are armed (one entry per
  \<^verbatim>\<open>setTimeout\<close> not yet cleared, named by the key of its task), the keys for which
  \<^verbatim>\<open>runAgent\<close> has been called, the rows given to \<^verbatim>\<open>taskRepo.add\<close> and the calls sent
  to Telegram.
\<close>

datatype notice = NCancelled | NRateLimited | NUnavailable | NOther exn

datatype out =
    Api call
  | ProgressError notice

record runner =
  runningTasks :: "key set"
  lastMessages :: "key \<rightharpoonup> string"
  timeouts :: "key list"
  store_of :: store
  started :: "key list"
  taskLog :: "(string \<times> string) list"
  outbox :: "out list"

definition init_runner :: runner where
  "init_runner = \<lparr>runningTasks = {}, lastMessages = Map.empty, timeouts = [],
     store_of = empty_store, started = [], taskLog = [], outbox = []\<rparr>"

definition BUSY_NOTICE :: string where
  "BUSY_NOTICE = [CHR 0xE2, CHR 0x8F, CHR 0xB3, CHR 0x20, CHR 0xE4, CHR 0xB8, CHR 0x8A, CHR 0xE4,
     CHR 0xB8, CHR 0x80, CHR 0xE4, CHR 0xB8, CHR 0xAA, CHR 0xE4, CHR 0xBB, CHR 0xBB, CHR 0xE5, CHR 0x8A,
     CHR 0xA1, CHR 0xE8, CHR 0xBF, CHR 0x98, CHR 0xE5, CHR 0x9C, CHR 0xA8, CHR 0xE8, CHR 0xBF, CHR 0x9B,
     CHR 0xE8, CHR 0xA1, CHR 0x8C, CHR 0xE4, CHR 0xB8, CHR 0xAD, CHR 0x2E, CHR 0x2E, CHR 0x2E]"

definition ELAPSED :: string where
  "ELAPSED = [CHR 0x0A, CHR 0x0A, CHR 0xE2, CHR 0x8F, CHR 0xB1, CHR 0x20]"

datatype verdict = Ignored | Busy | Crashed exn | Accepted

text \<open>
  The synchronous start of \<^verbatim>\<open>processUserMessage\<close>, to its first await: a blank text
  returns at once; a key that is running gets the notice with the cancel button
  (\<^const>\<open>CancelKb\<close>, whose callback is \<^verbatim>\<open>cancel_task\<close>) and the handler returns; otherwise
  \<^verbatim>\<open>touchUser\<close> writes to the database (\<open>touch\<close> is the exception it throws, if
  any, with which the handler ends), the text is remembered, the key is marked running
  and the typing action is sent.
\<close>

definition accept :: "int option \<Rightarrow> key \<Rightarrow> string \<Rightarrow> exn option \<Rightarrow> runner \<Rightarrow> verdict \<times> runner" where
  "accept chat k text touch r =
     (if blank text then (Ignored, r)
      else if k \<in> runningTasks r then
        (Busy, r\<lparr>outbox := outbox r @ [Api (Reply BUSY_NOTICE CancelKb)]\<rparr>)
      else (case touch of
              Some x \<Rightarrow> (Crashed x, r)
            | None \<Rightarrow>
                (Accepted, r\<lparr>lastMessages := (lastMessages r)(k \<mapsto> text),
                              runningTasks := insert k (runningTasks r),
                              outbox := outbox r @ [Api (SendChatAction chat)]\<rparr>)))"

text \<open>After the typing action has settled: the timeout is armed and the \<^verbatim>\<open>try\<close>
  block looks the session up. \<open>arm\<close> returns the session found, if any.\<close>

definition arm :: "key \<Rightarrow> int \<Rightarrow> runner \<Rightarrow> handle option \<times> runner" where
  "arm k now r =
     (let (h, st) = getSession k now (store_of r) in
      (h, r\<lparr>timeouts := timeouts r @ [k], store_of := st\<rparr>))"

text \<open>
  When no session was found and \<^verbatim>\<open>createPiSession\<close> has returned \<open>h\<close>, it is
  stored with \<^verbatim>\<open>setSession\<close>. The eviction pass inside calls the
  \<^verbatim>\<open>onSessionDelete\<close> callback for every session it deletes; \<^verbatim>\<open>main\<close> registers
  \<^verbatim>\<open>(key) => lastMessages.delete(key)\<close> there, so the last message of each key
  evicted by this call is forgotten.
\<close>

definition forget :: "key list \<Rightarrow> (key \<rightharpoonup> string) \<Rightarrow> (key \<rightharpoonup> string)" where
  "forget ks m = (\<lambda>x. if x \<in> set ks then None else m x)"

definition adopt :: "key \<Rightarrow> handle \<Rightarrow> int \<Rightarrow> int \<Rightarrow> runner \<Rightarrow> runner" where
  "adopt k h now now' r =
     (let st = setSession k h now now' (store_of r);
          gone = drop (length (notified (store_of r))) (notified st)
      in r\<lparr>store_of := st, lastMessages := forget gone (lastMessages r)\<rparr>)"

text \<open>The call of \<^verbatim>\<open>runAgent\<close>.\<close>

definition invoke :: "key \<Rightarrow> runner \<Rightarrow> runner" where
  "invoke k r = r\<lparr>started := started r @ [k]\<rparr>"

text \<open>What the \<^verbatim>\<open>try\<close> block came to: \<^verbatim>\<open>runAgent\<close> returned a result, or
  \<^verbatim>\<open>createPiSession\<close> or \<^verbatim>\<open>runAgent\<close> threw.\<close>

datatype task_outcome = Returned run_result | Threw exn

text \<open>The edit that puts the elapsed time and the buttons of a finished task
  (\<^const>\<open>DoneKb\<close>) under the answer; \<open>dur\<close> is the formatted duration.\<close>

definition deliver_result :: "int option \<Rightarrow> string \<Rightarrow> bool \<Rightarrow> run_result \<Rightarrow> call list" where
  "deliver_result chat dur rich_ok res =
     (case resultMsgId res of
        Some m \<Rightarrow>
          if m \<noteq> 0 then
            EditMessageText chat m (response res @ ELAPSED @ dur) Markdown DoneKb #
            (if rich_ok then []
             else [EditMessageText chat m (response res @ ELAPSED @ dur) NoParseMode DoneKb])
          else if \<not> blank (response res) then [SendLongText (response res @ ELAPSED @ dur) DoneKb]
          else []
      | None \<Rightarrow>
          if \<not> blank (response res) then [SendLongText (response res @ ELAPSED @ dur) DoneKb]
          else [])"

text \<open>The \<^verbatim>\<open>catch\<close> block: the notice chosen, the status logged.\<close>

definition classify_exn :: "(jv \<Rightarrow> int option) \<Rightarrow> exn \<Rightarrow> notice \<times> string" where
  "classify_exn S e =
     (if exn_name e = ''AbortError'' then (NCancelled, ''cancelled'')
      else if exn_status e = JNum 429 then (NRateLimited, ''error'')
      else if ge500 S (exn_status e) then (NUnavailable, ''error'')
      else (NOther e, ''error''))"

definition on_catch ::
  "(jv \<Rightarrow> int option) \<Rightarrow> string \<Rightarrow> exn option \<Rightarrow> exn \<Rightarrow> runner \<Rightarrow> exn option \<times> runner" where
  "on_catch S text catch_exn e r =
     (let (n, status) = classify_exn S e;
          r1 = r\<lparr>outbox := outbox r @ [ProgressError n]\<rparr>
      in case catch_exn of
           None \<Rightarrow> (None, r1\<lparr>taskLog := taskLog r1 @ [(text, status)]\<rparr>)
         | Some x \<Rightarrow> (Some x, r1))"

text \<open>The \<^verbatim>\<open>finally\<close> block.\<close>

definition release :: "key \<Rightarrow> runner \<Rightarrow> runner" where
  "release k r = r\<lparr>timeouts := remove1 k (timeouts r), runningTasks := runningTasks r - {k}\<rparr>"

text \<open>
  The rest of the handler from the outcome of the \<^verbatim>\<open>try\<close> block on.
  \<open>try_exn\<close> is the exception, if any, thrown by what the \<^verbatim>\<open>try\<close> block does
  after \<^verbatim>\<open>runAgent\<close> has returned and the result is delivered (\<^verbatim>\<open>taskRepo.add\<close>),
  \<open>catch_exn\<close> the one thrown by the \<^verbatim>\<open>taskRepo.add\<close> of the \<^verbatim>\<open>catch\<close>
  block. The first component of the result is the exception with which the handler
  ends, if it ends with one; the \<^verbatim>\<open>finally\<close> block has run in either case.
\<close>

definition settle ::
  "(jv \<Rightarrow> int option) \<Rightarrow> int option \<Rightarrow> key \<Rightarrow> string \<Rightarrow> string \<Rightarrow> bool
     \<Rightarrow> exn option \<Rightarrow> exn option \<Rightarrow> task_outcome \<Rightarrow> runner \<Rightarrow> exn option \<times> runner" where
  "settle S chat k text dur rich_ok try_exn catch_exn outcome r =
     (let (x, r1) =
        (case outcome of
           Returned res \<Rightarrow>
             (let r0 = r\<lparr>outbox := outbox r @ map Api (deliver_result chat dur rich_ok res)\<rparr> in
              case try_exn of
                None \<Rightarrow> (None, r0\<lparr>taskLog := taskLog r0 @ [(text, ''ok'')]\<rparr>)
              | Some e \<Rightarrow> on_catch S text catch_exn e r0)
         | Threw e \<Rightarrow> on_catch S text catch_exn e r)
      in (x, release k r1))"

text \<open>
  One whole run of the handler, from the message to its end, with nothing else running
  at its awaits; the first component of the result is the exception that leaves the
  handler, if any. \<open>reply_exn\<close> is the exception of the \<^verbatim>\<open>ctx.reply\<close> that sends
  the notice, when that call is rejected, \<open>created\<close> is what \<^verbatim>\<open>createPiSession\<close>
  comes to when it is called (\<open>Inl\<close> the exception it throws, which the \<^verbatim>\<open>catch\<close>
  block receives), \<open>outcome\<close> what \<^verbatim>\<open>runAgent\<close> comes to. A handler whose message
  is ignored or refused ends after its first step.
\<close>

definition processUserMessage ::
  "(jv \<Rightarrow> int option) \<Rightarrow> int option \<Rightarrow> key \<Rightarrow> string \<Rightarrow> exn option \<Rightarrow> exn option \<Rightarrow> int
     \<Rightarrow> exn + handle \<Rightarrow> int \<Rightarrow> int \<Rightarrow> string \<Rightarrow> bool \<Rightarrow> exn option \<Rightarrow> exn option \<Rightarrow> task_outcome \<Rightarrow> runner
     \<Rightarrow> exn option \<times> runner" where
  "processUserMessage S chat k text touch reply_exn now created now1 now2 dur rich_ok try_exn catch_exn
       outcome r =
     (case accept chat k text touch r of
        (v, r1) \<Rightarrow>
          (case v of
             Ignored \<Rightarrow> (None, r1)
           | Busy \<Rightarrow> (reply_exn, r1)
           | Crashed x \<Rightarrow> (Some x, r1)
           | Accepted \<Rightarrow>
               (case arm k now r1 of
                  (Some h, r2) \<Rightarrow>
                    settle S chat k text dur rich_ok try_exn catch_exn outcome (invoke k r2)
                | (None, r2) \<Rightarrow>
                    (case created of
                       Inl e \<Rightarrow>
                         settle S chat k text dur rich_ok try_exn catch_exn (Threw e) r2
                     | Inr h \<Rightarrow>
                         settle S chat k text dur rich_ok try_exn catch_exn outcome
                           (invoke k (adopt k h now1 now2 r2))))))"

text \<open>
  The steps that the handlers of the runner take, for runs of several handlers
  interleaved at their awaits: the start of a handler on a message, and the later
  steps of a handler that was accepted.
\<close>

datatype rstep =
    Message "int option" key string "exn option"
  | Armed key int
  | Adopted key handle int int
  | Invoked key
  | Settled "int option" key string string bool "exn option" "exn option" task_outcome

definition apply_rstep :: "(jv \<Rightarrow> int option) \<Rightarrow> rstep \<Rightarrow> runner \<Rightarrow> runner" where
  "apply_rstep S st r =
     (case st of
        Message chat k text touch \<Rightarrow> snd (accept chat k text touch r)
      | Armed k now \<Rightarrow> snd (arm k now r)
      | Adopted k h now now' \<Rightarrow> adopt k h now now' r
      | Invoked k \<Rightarrow> invoke k r
      | Settled chat k text dur rich_ok try_exn catch_exn outcome \<Rightarrow>
          snd (settle S chat k text dur rich_ok try_exn catch_exn outcome r))"

text \<open>The step runs the \<^verbatim>\<open>finally\<close> block of a task of key \<open>k\<close>.\<close>

definition releases :: "key \<Rightarrow> rstep \<Rightarrow> bool" where
  "releases k st = (case st of Settled _ k' _ _ _ _ _ _ \<Rightarrow> k' = k | _ \<Rightarrow> False)"

text \<open>For the examples: the runner once the first message of conversation \<open>1_5\<close> has
  been accepted, and steps taken while its task runs, among them a second message of the
  same conversation and a whole task of conversation \<open>2_9\<close>.\<close>

definition demo_running :: runner where
  "demo_running = snd (accept (Some 5) ''1_5'' ''hello'' None init_runner)"

definition demo_steps :: "rstep list" where
  "demo_steps =
     [Message (Some 5) ''1_5'' ''again'' None, Armed ''1_5'' 1000,
      Message (Some 9) ''2_9'' ''other'' None,
      Adopted ''1_5'' 1 1000 1000, Invoked ''1_5'', Armed ''2_9'' 1001,
      Settled (Some 9) ''2_9'' ''other'' ''0.1'' True None None
        (Threw (External ''AbortError'' JUndef JUndef))]"

subsection \<open>What a deletion leaves\<close>

lemma sessions_deleteSession:
  "sessions (deleteSession k s) = map_delete k (sessions s)"
proof (cases "map_of (sessions s) k")
  case None
  then have "k \<notin> fst ` set (sessions s)"
    by (simp add: map_of_eq_None_iff)
  then have "filter (\<lambda>p. fst p \<noteq> k) (sessions s) = sessions s"
    by (auto simp: filter_id_conv)
  with None show ?thesis
    by (simp add: deleteSession_def map_delete_def)
next
  case (Some e)
  then show ?thesis
    by (simp add: deleteSession_def)
qed

lemma sessions_fold_delete:
  "sessions (fold (\<lambda>p. deleteSession (fst p)) ps s) =
     filter (\<lambda>q. fst q \<notin> fst ` set ps) (sessions s)"
proof (induction ps arbitrary: s)
  case Nil
  show ?case by simp
next
  case (Cons p ps)
  show ?case
    by (simp add: Cons.IH sessions_deleteSession map_delete_def conj_commute)
qed

lemma sessions_sweep:
  "sessions (fold (sweep_step now) ps s) =
     filter (\<lambda>q. fst q \<notin> fst ` set (filter (\<lambda>p. expired now (snd p)) ps)) (sessions s)"
proof (induction ps arbitrary: s)
  case Nil
  show ?case by simp
next
  case (Cons p ps)
  show ?case
  proof (cases "expired now (snd p)")
    case True
    then have "sweep_step now p s = deleteSession (fst p) s"
      by (simp add: sweep_step_def)
    with True show ?thesis
      by (simp add: Cons.IH sessions_deleteSession map_delete_def conj_commute)
  next
    case False
    then have "sweep_step now p s = s"
      by (simp add: sweep_step_def)
    with False show ?thesis
      by (simp add: Cons.IH)
  qed
qed

subsection \<open>The keys of the store stay distinct\<close>

lemma keys_map_set: "set (map fst (map_set k v m)) = insert k (set (map fst m))"
proof (induction m)
  case Nil
  show ?case by simp
next
  case (Cons p m)
  obtain a b where p: "p = (a, b)" by (cases p)
  show ?case
  proof (cases "a = k")
    case True
    with p show ?thesis by simp
  next
    case False
    have "set (map fst (map_set k v (p # m))) = insert a (set (map fst (map_set k v m)))"
      using p False by simp
    also have "\<dots> = insert a (insert k (set (map fst m)))"
      by (simp only: Cons.IH)
    also have "\<dots> = insert k (set (map fst (p # m)))"
      using p by (simp add: insert_commute)
    finally show ?thesis .
  qed
qed

lemma distinct_map_set:
  "distinct (map fst m) \<Longrightarrow> distinct (map fst (map_set k v m))"
proof (induction m)
  case Nil
  show ?case by simp
next
  case (Cons p m)
  obtain a b where p: "p = (a, b)" by (cases p)
  show ?case
  proof (cases "a = k")
    case True
    with Cons.prems p show ?thesis by simp
  next
    case False
    have "a \<notin> insert k (set (map fst m))"
      using Cons.prems p False by simp
    then have "a \<notin> set (map fst (map_set k v m))"
      unfolding keys_map_set .
    moreover have "distinct (map fst (map_set k v m))"
      using Cons by simp
    ultimately show ?thesis
      using p False by simp
  qed
qed

lemma distinct_map_delete:
  "distinct (map fst m) \<Longrightarrow> distinct (map fst (map_delete k m))"
  by (simp add: map_delete_def distinct_map_filter)

lemma distinct_evictSessions:
  "distinct (map fst (sessions s)) \<Longrightarrow> distinct (map fst (sessions (evictSessions now s)))"
  by (simp add: evictSessions_def Let_def sessions_fold_delete sessions_sweep distinct_map_filter)

lemma distinct_store_ops:
  assumes "distinct (map fst (sessions s))"
  shows "distinct (map fst (sessions (deleteSession k s)))"
    and "distinct (map fst (sessions (setSession k h t now s)))"
    and "distinct (map fst (sessions (snd (getSession k now s))))"
  using assms
  by (simp_all add: sessions_deleteSession distinct_map_delete setSession_def
        distinct_evictSessions distinct_map_set getSession_def split: option.splits)

subsection \<open>Size and age after an eviction pass\<close>

lemma length_filter_sort_key:
  "length (filter P (sort_key f xs)) = length (filter P xs)"
  by (simp add: filter_sort)

lemma length_after_cut:
  assumes "d \<le> length xs"
  shows "length (filter (\<lambda>q. g q \<notin> g ` set (take d (sort_key f xs))) xs) \<le> length xs - d"
proof -
  let ?ys = "sort_key f xs"
  let ?P = "\<lambda>q. g q \<notin> g ` set (take d ?ys)"
  have "length (filter ?P xs) = length (filter ?P ?ys)"
    by (simp only: length_filter_sort_key)
  also have "\<dots> = length (filter ?P (take d ?ys @ drop d ?ys))"
    by simp
  also have "\<dots> = length (filter ?P (take d ?ys)) + length (filter ?P (drop d ?ys))"
    by (simp only: filter_append length_append)
  also have "filter ?P (take d ?ys) = []"
    by (auto simp: filter_empty_conv)
  finally have "length (filter ?P xs) = length (filter ?P (drop d ?ys))"
    by simp
  moreover have "length (filter ?P (drop d ?ys)) \<le> length (drop d ?ys)"
    by (rule length_filter_le)
  ultimately show ?thesis
    by simp
qed

lemma evict_retains_fresh:
  assumes "p \<in> set (sessions (evictSessions now s))"
  shows "p \<in> set (sessions s) \<and> \<not> expired now (snd p)"
proof -
  let ?s1 = "fold (sweep_step now) (sessions s) s"
  have sub: "set (sessions (evictSessions now s)) \<subseteq> set (sessions ?s1)"
    by (auto simp: evictSessions_def Let_def sessions_fold_delete)
  with assms have "p \<in> set (sessions ?s1)"
    by blast
  then show ?thesis
    by (auto simp: sessions_sweep)
qed

lemma evict_size:
  "length (sessions (evictSessions now s)) \<le> SESSION_MAX"
proof -
  let ?s1 = "fold (sweep_step now) (sessions s) s"
  show ?thesis
  proof (cases "length (sessions ?s1) > SESSION_MAX")
    case True
    have "length (filter (\<lambda>q. fst q \<notin> fst ` set (take (length (sessions ?s1) - SESSION_MAX)
              (sort_key (\<lambda>p. lastUsed (snd p)) (sessions ?s1)))) (sessions ?s1))
          \<le> length (sessions ?s1) - (length (sessions ?s1) - SESSION_MAX)"
      by (rule length_after_cut) simp
    with True show ?thesis
      by (simp add: evictSessions_def Let_def sessions_fold_delete sorted_entries_def)
  next
    case False
    then show ?thesis
      by (simp add: evictSessions_def Let_def)
  qed
qed

subsection \<open>A stable sort cut in two\<close>

lemma no_cross:
  assumes "distinct (A @ B)" "A @ B = us @ b # vs @ a # ws" "a \<in> set A" "b \<in> set B"
  shows False
proof -
  from \<open>a \<in> set A\<close> obtain a1 a2 where A: "A = a1 @ a # a2"
    by (auto dest: split_list)
  have d: "distinct (a1 @ a # (a2 @ B))"
    using assms(1) A by simp
  have e: "a1 @ a # (a2 @ B) = (us @ b # vs) @ a # ws"
    using assms(2) A by simp
  have "a \<notin> set a1" "a \<notin> set (a2 @ B)"
    using d by auto
  from append_Cons_eq_iff[OF this] e have "a1 = us @ b # vs"
    by blast
  then have "b \<in> set A"
    using A by simp
  with assms(1,4) show False
    by auto
qed

lemma filter_order:
  assumes "j < i" "i < length xs" "P (xs ! j)" "P (xs ! i)"
  shows "\<exists>us vs ws. filter P xs = us @ (xs ! j) # vs @ (xs ! i) # ws"
proof -
  have "xs = take j xs @ xs ! j # drop (Suc j) xs"
    using assms by (simp add: id_take_nth_drop)
  moreover have "drop (Suc j) xs = take (i - Suc j) (drop (Suc j) xs) @ xs ! i # drop (Suc i) xs"
    using assms id_take_nth_drop[of "i - Suc j" "drop (Suc j) xs"] by simp
  ultimately have "xs = take j xs @ xs ! j # take (i - Suc j) (drop (Suc j) xs) @ xs ! i # drop (Suc i) xs"
    by simp
  then have "filter P xs = filter P (take j xs @ xs ! j # take (i - Suc j) (drop (Suc j) xs) @ xs ! i # drop (Suc i) xs)"
    by simp
  with assms show ?thesis
    by (simp only: filter_append filter.simps if_True) blast
qed

lemma stable_cut:
  assumes dist: "distinct xs"
    and a: "a \<in> set (take d (sort_key f xs))"
    and b: "b \<in> set (drop d (sort_key f xs))"
    and ai: "i < length xs" "xs ! i = a"
    and bj: "j < length xs" "xs ! j = b"
  shows "f a \<le> f b \<and> (f a = f b \<longrightarrow> i < j)"
proof -
  let ?ys = "sort_key f xs"
  have dys: "set (take d ?ys) \<inter> set (drop d ?ys) = {}"
    using dist by (simp add: set_take_disj_set_drop_if_distinct)
  have "sorted (map f (take d ?ys @ drop d ?ys))"
    by simp
  then have le: "f a \<le> f b"
    using a b unfolding map_append sorted_append by auto
  have ne: "a \<noteq> b"
    using dys a b by auto
  have "i < j" if eq: "f a = f b"
  proof (rule ccontr)
    assume "\<not> i < j"
    with ne ai bj have ji: "j < i"
      by (metis linorder_neqE_nat)
    let ?P = "\<lambda>y. f y = f a"
    have "\<exists>us vs ws. filter ?P xs = us @ (xs ! j) # vs @ (xs ! i) # ws"
      using ji ai bj eq by (intro filter_order) auto
    then obtain us vs ws where dec: "filter ?P xs = us @ b # vs @ a # ws"
      using ai bj by auto
    have st: "filter ?P xs = filter ?P (take d ?ys) @ filter ?P (drop d ?ys)"
      using sort_key_stable[of f "f a" xs] filter_append[of ?P "take d ?ys" "drop d ?ys"]
      by simp
    have "distinct (filter ?P (take d ?ys) @ filter ?P (drop d ?ys))"
      using dist st by (metis distinct_filter)
    moreover have "filter ?P (take d ?ys) @ filter ?P (drop d ?ys) = us @ b # vs @ a # ws"
      using st dec by simp
    moreover have "a \<in> set (filter ?P (take d ?ys))"
      using a by simp
    moreover have "b \<in> set (filter ?P (drop d ?ys))"
      using b eq by simp
    ultimately show False
      by (rule no_cross)
  qed
  with le show ?thesis
    by blast
qed

subsection \<open>Capacity eviction on a store with nothing expired\<close>

lemma sweep_noop:
  assumes "\<forall>p \<in> set ps. \<not> expired now (snd p)"
  shows "fold (sweep_step now) ps s = s"
  using assms by (induction ps) (simp_all add: sweep_step_def)

lemma evict_capacity_only:
  assumes fresh: "\<forall>p \<in> set (sessions s). \<not> expired now (snd p)"
    and big: "length (sessions s) > SESSION_MAX"
    and dist: "distinct (map fst (sessions s))"
  shows "sessions (evictSessions now s) =
           filter (\<lambda>q. q \<notin> set (take (length (sessions s) - SESSION_MAX) (sorted_entries (sessions s))))
             (sessions s)"
proof -
  let ?xs = "sessions s"
  let ?T = "take (length ?xs - SESSION_MAX) (sorted_entries ?xs)"
  have "sessions (evictSessions now s) = filter (\<lambda>q. fst q \<notin> fst ` set ?T) ?xs"
    using big by (simp add: evictSessions_def Let_def sweep_noop[OF fresh] sessions_fold_delete sorted_entries_def)
  also have "\<dots> = filter (\<lambda>q. q \<notin> set ?T) ?xs"
  proof (rule filter_cong[OF refl])
    fix q assume q: "q \<in> set ?xs"
    have sub: "set ?T \<subseteq> set ?xs"
      using set_take_subset[of "length ?xs - SESSION_MAX" "sorted_entries ?xs"]
      by (simp add: sorted_entries_def)
    have inj: "inj_on fst (set ?xs)"
      using dist by (simp add: distinct_map)
    show "(fst q \<notin> fst ` set ?T) = (q \<notin> set ?T)"
      using q sub inj by (auto simp: inj_on_def) 
  qed
  finally show ?thesis .
qed

lemma disposed_deleteSession:
  assumes "distinct (map fst (sessions s))" "p \<in> set (sessions s)"
  shows "disposed (deleteSession (fst p) s) = disposed s @ [session (snd p)]"
proof -
  have "map_of (sessions s) (fst p) = Some (snd p)"
    using assms by (cases p) simp
  then show ?thesis
    by (simp add: deleteSession_def)
qed

lemma disposed_fold_delete:
  assumes "distinct (map fst (sessions s))" "set ps \<subseteq> set (sessions s)" "distinct ps"
  shows "disposed (fold (\<lambda>p. deleteSession (fst p)) ps s) = disposed s @ map (\<lambda>p. session (snd p)) ps"
  using assms
proof (induction ps arbitrary: s)
  case Nil
  show ?case by simp
next
  case (Cons p ps)
  let ?s' = "deleteSession (fst p) s"
  have d: "distinct (map fst (sessions ?s'))"
    using Cons.prems(1) by (simp add: sessions_deleteSession map_delete_def distinct_map_filter)
  have inj: "inj_on fst (set (sessions s))"
    using Cons.prems(1) by (simp add: distinct_map)
  have sub: "set ps \<subseteq> set (sessions ?s')"
  proof
    fix q assume q: "q \<in> set ps"
    then have qs: "q \<in> set (sessions s)" and "q \<noteq> p"
      using Cons.prems(2,3) by auto
    moreover have "p \<in> set (sessions s)"
      using Cons.prems(2) by simp
    ultimately have "fst q \<noteq> fst p"
      using inj by (auto simp: inj_on_def)
    with qs show "q \<in> set (sessions ?s')"
      by (simp add: sessions_deleteSession map_delete_def)
  qed
  have dp: "distinct ps"
    using Cons.prems(3) by simp
  have "disposed (fold (\<lambda>p. deleteSession (fst p)) ps ?s') =
      disposed ?s' @ map (\<lambda>p. session (snd p)) ps"
    by (rule Cons.IH[OF d sub dp])
  moreover have "disposed ?s' = disposed s @ [session (snd p)]"
    using Cons.prems(1,2) by (simp add: disposed_deleteSession)
  ultimately show ?case
    by simp
qed

lemma evict_capacity_state:
  assumes "\<forall>p \<in> set (sessions s). \<not> expired now (snd p)" "length (sessions s) > SESSION_MAX"
  shows "evictSessions now s =
           fold (\<lambda>p. deleteSession (fst p))
             (take (length (sessions s) - SESSION_MAX) (sorted_entries (sessions s))) s"
  using assms by (simp add: evictSessions_def Let_def sweep_noop sorted_entries_def)

subsection \<open>The claims about the session store\<close>

text \<open>
  Claim C1. After an eviction pass, whatever calls produced the store before it, the
  store holds at most \<^const>\<open>SESSION_MAX\<close> entries and every entry kept is at most
  \<^const>\<open>SESSION_TTL_MS\<close> old at the time \<open>now\<close> the pass read; the same holds after
  \<^const>\<open>setSession\<close>, which ends with such a pass.
\<close>

theorem evict_bounds:
  "length (sessions (evictSessions now s)) \<le> SESSION_MAX \<and>
   (\<forall>p \<in> set (sessions (evictSessions now s)). now - lastUsed (snd p) \<le> SESSION_TTL_MS) \<and>
   length (sessions (setSession k h t now s)) \<le> SESSION_MAX \<and>
   (\<forall>p \<in> set (sessions (setSession k h t now s)). now - lastUsed (snd p) \<le> SESSION_TTL_MS)"
  using evict_retains_fresh evict_size
  by (fastforce simp: setSession_def expired_def)

theorem evict_bounds_witness:
  "length (sessions (evictSessions 1805000 demo_store)) = 13 \<and>
   length (sessions (evictSessions 5000 demo_store)) = SESSION_MAX \<and>
   list_all (\<lambda>p. 1805000 - lastUsed (snd p) \<le> SESSION_TTL_MS)
     (sessions (evictSessions 1805000 demo_store)) \<and>
   length (sessions (setSession ''X'' 99 1805000 1805000 demo_store)) = 14 \<and>
   list_all (\<lambda>p. 1805000 - lastUsed (snd p) \<le> SESSION_TTL_MS)
     (sessions (setSession ''X'' 99 1805000 1805000 demo_store))"
proof -
  have a: "length (sessions (evictSessions 1805000 demo_store)) = 13"
    by code_simp
  have b: "length (sessions (evictSessions 5000 demo_store)) = SESSION_MAX"
    by code_simp
  have c: "length (sessions (setSession ''X'' 99 1805000 1805000 demo_store)) = 14"
    by code_simp
  from a b c evict_bounds[of 1805000 demo_store "''X''" 99 1805000] show ?thesis
    unfolding list_all_iff by blast
qed

text \<open>
  Claim C2. On a store of more than \<^const>\<open>SESSION_MAX\<close> entries (under distinct keys,
  as a map has them), none of them expired at \<open>now\<close>, an eviction pass keeps exactly
  \<^const>\<open>SESSION_MAX\<close> entries, in their map order; an evicted entry was never touched
  later than a kept one; where an evicted and a kept entry were touched at the same
  time, the evicted one stands earlier in the insertion order of the map; when all the
  timestamps differ, every evicted entry is strictly older than every kept one; and the
  evicted sessions are disposed one by one in ascending order of their timestamps, equal
  timestamps in insertion order (the order of a stable sort).
\<close>

theorem evict_keeps_most_recent:
  assumes dist: "distinct (map fst (sessions s))"
    and big: "length (sessions s) > SESSION_MAX"
    and fresh: "\<forall>p \<in> set (sessions s). now - lastUsed (snd p) \<le> SESSION_TTL_MS"
  shows "length (sessions (evictSessions now s)) = SESSION_MAX \<and>
         sessions (evictSessions now s) =
           filter (\<lambda>p. p \<in> set (sessions (evictSessions now s))) (sessions s) \<and>
         (\<forall>i j. i < length (sessions s) \<and> j < length (sessions s) \<and>
                sessions s ! i \<notin> set (sessions (evictSessions now s)) \<and>
                sessions s ! j \<in> set (sessions (evictSessions now s)) \<longrightarrow>
                lastUsed (snd (sessions s ! i)) \<le> lastUsed (snd (sessions s ! j)) \<and>
                (lastUsed (snd (sessions s ! i)) = lastUsed (snd (sessions s ! j)) \<longrightarrow> i < j)) \<and>
         (distinct (map (\<lambda>p. lastUsed (snd p)) (sessions s)) \<longrightarrow>
            (\<forall>p \<in> set (sessions s) - set (sessions (evictSessions now s)).
             \<forall>q \<in> set (sessions (evictSessions now s)).
               lastUsed (snd p) < lastUsed (snd q))) \<and>
         disposed (evictSessions now s) =
           disposed s @ map (\<lambda>p. session (snd p))
             (take (length (sessions s) - SESSION_MAX)
                (sort_key (\<lambda>p. lastUsed (snd p)) (sessions s)))"
proof -
  let ?xs = "sessions s"
  let ?f = "\<lambda>p. lastUsed (snd p)"
  let ?d = "length ?xs - SESSION_MAX"
  let ?ys = "sort_key ?f ?xs"
  let ?T = "take ?d ?ys"
  let ?D = "drop ?d ?ys"
  let ?r = "sessions (evictSessions now s)"
  let ?r' = "evictSessions now s"
  have dxs: "distinct ?xs"
    using dist by (simp add: distinct_map)
  have nexp: "\<forall>p \<in> set ?xs. \<not> expired now (snd p)"
    using fresh by (auto simp: expired_def)
  have r: "?r = filter (\<lambda>q. q \<notin> set ?T) ?xs"
    using evict_capacity_only[OF nexp big dist] by (simp add: sorted_entries_def)
  have disj: "set ?T \<inter> set ?D = {}"
    using dxs by (simp add: set_take_disj_set_drop_if_distinct)
  have un: "set ?T \<union> set ?D = set ?xs"
    using set_append[of ?T ?D] by simp
  have setr: "set ?r = set ?D"
    using r disj un by auto
  have "length ?r = length (filter (\<lambda>q. q \<notin> set ?T) ?ys)"
    using r by (simp add: length_filter_sort_key)
  also have "\<dots> = length (filter (\<lambda>q. q \<notin> set ?T) (?T @ ?D))"
    by simp
  also have "\<dots> = length (filter (\<lambda>q. q \<notin> set ?T) ?T) + length (filter (\<lambda>q. q \<notin> set ?T) ?D)"
    by (simp only: filter_append length_append)
  also have "filter (\<lambda>q. q \<notin> set ?T) ?T = []"
    by (simp add: filter_empty_conv)
  also have "filter (\<lambda>q. q \<notin> set ?T) ?D = ?D"
    using disj by (auto simp: filter_id_conv)
  finally have len: "length ?r = SESSION_MAX"
    using big by simp
  have ord: "?r = filter (\<lambda>p. p \<in> set ?r) ?xs"
  proof -
    have "filter (\<lambda>p. p \<in> set ?r) ?xs = filter (\<lambda>q. q \<notin> set ?T) ?xs"
      using setr disj un by (intro filter_cong) auto
    with r show ?thesis by simp
  qed
  have cut: "?f (?xs ! i) \<le> ?f (?xs ! j) \<and> (?f (?xs ! i) = ?f (?xs ! j) \<longrightarrow> i < j)"
    if "i < length ?xs" "j < length ?xs" "?xs ! i \<notin> set ?r" "?xs ! j \<in> set ?r" for i j
  proof -
    have "?xs ! i \<in> set ?T"
      using that(1,3) setr un by (metis UnE nth_mem)
    moreover have "?xs ! j \<in> set ?D"
      using that(4) setr by simp
    ultimately show ?thesis
      using stable_cut[OF dxs _ _ that(1) refl that(2) refl, of ?d ?f] by blast
  qed
  have strict: "?f p < ?f q"
    if dt: "distinct (map ?f ?xs)" and p: "p \<in> set ?xs - set ?r" and q: "q \<in> set ?r" for p q
  proof -
    from p obtain i where i: "i < length ?xs" "?xs ! i = p"
      by (auto simp: in_set_conv_nth)
    from q ord have "q \<in> set ?xs"
      by (metis filter_is_subset subsetD)
    then obtain j where j: "j < length ?xs" "?xs ! j = q"
      by (auto simp: in_set_conv_nth)
    have le: "?f p \<le> ?f q"
      using cut[of i j] i j p q by auto
    have "p \<noteq> q"
      using p q by auto
    then have "?f p \<noteq> ?f q"
      using dt p \<open>q \<in> set ?xs\<close> by (auto simp: distinct_map inj_on_def)
    with le show ?thesis
      by simp
  qed
  have "set ?T \<subseteq> set ?xs"
    using un by blast
  moreover have "distinct ?T"
    using dxs by simp
  ultimately have "disposed (fold (\<lambda>p. deleteSession (fst p)) ?T s) =
      disposed s @ map (\<lambda>p. session (snd p)) ?T"
    using dist by (intro disposed_fold_delete)
  then have log: "disposed ?r' = disposed s @ map (\<lambda>p. session (snd p)) ?T"
    using evict_capacity_state[OF nexp big] by (simp add: sorted_entries_def)
  from len ord cut strict log show ?thesis
    by blast
qed

theorem evict_keeps_most_recent_witness:
  "distinct (map fst (sessions demo_store)) \<and>
   length (sessions demo_store) > SESSION_MAX \<and>
   list_all (\<lambda>p. 5000 - lastUsed (snd p) \<le> SESSION_TTL_MS) (sessions demo_store) \<and>
   map fst (sessions demo_store) ! 2 = ''C'' \<and> map fst (sessions demo_store) ! 3 = ''D'' \<and>
   lastUsed (snd (sessions demo_store ! 2)) = lastUsed (snd (sessions demo_store ! 3)) \<and>
   sessions demo_store ! 2 \<notin> set (sessions (evictSessions 5000 demo_store)) \<and>
   sessions demo_store ! 3 \<in> set (sessions (evictSessions 5000 demo_store)) \<and>
   length (sessions (evictSessions 5000 demo_store)) = SESSION_MAX \<and>
   sessions (evictSessions 5000 demo_store) =
     filter (\<lambda>p. p \<in> set (sessions (evictSessions 5000 demo_store))) (sessions demo_store)"
proof -
  have h1: "distinct (map fst (sessions demo_store))"
    by code_simp
  have h2: "length (sessions demo_store) > SESSION_MAX"
    by code_simp
  have h3: "\<forall>p \<in> set (sessions demo_store). 5000 - lastUsed (snd p) \<le> SESSION_TTL_MS"
    by code_simp
  have e: "map fst (sessions demo_store) ! 2 = ''C'' \<and> map fst (sessions demo_store) ! 3 = ''D'' \<and>
      lastUsed (snd (sessions demo_store ! 2)) = lastUsed (snd (sessions demo_store ! 3)) \<and>
      sessions demo_store ! 2 \<notin> set (sessions (evictSessions 5000 demo_store)) \<and>
      sessions demo_store ! 3 \<in> set (sessions (evictSessions 5000 demo_store))"
    by code_simp
  from evict_keeps_most_recent[OF h1 h2 h3] h1 h2 h3 e show ?thesis
    unfolding list_all_iff by blast
qed

text \<open>
  Claim C7 asks that \<^const>\<open>setSession\<close> on an occupied key dispose the session it
  replaces. The code stores the new entry over the old one and calls no
  \<^verbatim>\<open>dispose\<close>: here the key \<open>A\<close> holds session 1, and after
  \<^verbatim>\<open>setSession('A', 2)\<close> it holds session 2 while the log of disposals is still
  empty. \<^const>\<open>deleteSession\<close> on the same store does dispose session 1.
\<close>

theorem setSession_overwrite_skips_dispose:
  "sessions (setSession ''A'' 2 1000 1000
      \<lparr>sessions = [(''A'', \<lparr>session = 1, lastUsed = 0\<rparr>)], disposed = [], notified = []\<rparr>) =
     [(''A'', \<lparr>session = 2, lastUsed = 1000\<rparr>)] \<and>
   disposed (setSession ''A'' 2 1000 1000
      \<lparr>sessions = [(''A'', \<lparr>session = 1, lastUsed = 0\<rparr>)], disposed = [], notified = []\<rparr>) = [] \<and>
   disposed (deleteSession ''A''
      \<lparr>sessions = [(''A'', \<lparr>session = 1, lastUsed = 0\<rparr>)], disposed = [], notified = []\<rparr>) = [1]"
  by (simp add: setSession_def evictSessions_def sweep_step_def expired_def SESSION_TTL_MS_def
        SESSION_MAX_def deleteSession_def map_delete_def)
section \<open>Proofs: error classification\<close>

subsection \<open>Substrings\<close>

lemma starts_with_iff: "starts_with s sub \<longleftrightarrow> (\<exists>q. s = sub @ q)"
  by (induction s sub rule: starts_with.induct) auto

lemma js_includes_iff: "js_includes s sub \<longleftrightarrow> (\<exists>p q. s = p @ sub @ q)"
proof (induction s)
  case Nil
  then show ?case by auto
next
  case (Cons c cs)
  show ?case
  proof
    assume "js_includes (c # cs) sub"
    then consider "starts_with (c # cs) sub" | "js_includes cs sub"
      by auto
    then show "\<exists>p q. c # cs = p @ sub @ q"
    proof cases
      case 1
      then obtain q where "c # cs = [] @ sub @ q"
        by (auto simp: starts_with_iff)
      then show ?thesis by blast
    next
      case 2
      with Cons obtain p q where "cs = p @ sub @ q"
        by auto
      then have "c # cs = (c # p) @ sub @ q"
        by simp
      then show ?thesis by blast
    qed
  next
    assume "\<exists>p q. c # cs = p @ sub @ q"
    then obtain p q where pq: "c # cs = p @ sub @ q"
      by blast
    show "js_includes (c # cs) sub"
    proof (cases p)
      case Nil
      with pq have "starts_with (c # cs) sub"
        by (auto simp: starts_with_iff)
      then show ?thesis by simp
    next
      case (Cons a p')
      with pq have "cs = p' @ sub @ q"
        by simp
      with Cons.IH have "js_includes cs sub"
        by blast
      then show ?thesis by simp
    qed
  qed
qed

subsection \<open>The claim about the message\_end classifier\<close>

text \<open>
  Claim C5, as the code has it. For a \<^verbatim>\<open>message_end\<close> event that carries a non-empty
  error message, the listener records: status 429 with the rate-limit text when the
  message contains \<open>quota\<close> or \<open>429\<close>; otherwise status 500 with the
  service-unavailable text when it contains the substring \<open>500\<close> or
  \<open>unavailable\<close>; otherwise status 0 with the first 200 code units of the message.
\<close>

theorem message_end_classification:
  assumes "msg \<noteq> []"
  shows "listener P S md (MessageEnd (Some msg)) s =
           Inr (s\<lparr>lastError :=
             (if (\<exists>p q. msg = p @ ''quota'' @ q) \<or> (\<exists>p q. msg = p @ ''429'' @ q) then
                mk_error (JNum 429) (JStr MSG_RATE_LIMITED)
              else if (\<exists>p q. msg = p @ ''500'' @ q) \<or> (\<exists>p q. msg = p @ ''unavailable'' @ q) then
                mk_error (JNum 500) (JStr MSG_UNAVAILABLE)
              else mk_error (JNum 0) (JStr (take 200 msg)))\<rparr>) \<and>
         length (take 200 msg) \<le> 200"
  using assms
  by (simp add: listener_def classify_message_end_def js_includes_iff del: append.simps)

theorem message_end_classification_witness:
  "''Error 500'' \<noteq> [] \<and>
   listener toy_parse toy_number (\<lambda>t. t) (MessageEnd (Some ''Error 500'')) (init_state None) =
     Inr ((init_state None)\<lparr>lastError := mk_error (JNum 500) (JStr MSG_UNAVAILABLE)\<rparr>)"
  using message_end_classification[of "''Error 500''" toy_parse toy_number "\<lambda>t. t" "init_state None"]
  unfolding js_includes_iff[symmetric]
  by simp

text \<open>
  The claim as stated asks for the service-unavailable class whenever the message
  indicates a status of 500 or more. A message that names status 503 and contains none of
  the four substrings is recorded with status 0 and its own text.
\<close>

theorem message_end_503_counterexample:
  "indicates_5xx ''HTTP 503 overloaded'' \<and>
   classify_as_specified ''HTTP 503 overloaded'' = mk_error (JNum 500) (JStr MSG_UNAVAILABLE) \<and>
   listener toy_parse toy_number (\<lambda>t. t) (MessageEnd (Some ''HTTP 503 overloaded'')) (init_state None) =
     Inr ((init_state None)\<lparr>lastError := mk_error (JNum 0) (JStr ''HTTP 503 overloaded'')\<rparr>) \<and>
   mk_error (JNum 0) (JStr ''HTTP 503 overloaded'') \<noteq> mk_error (JNum 500) (JStr MSG_UNAVAILABLE)"
proof -
  have n: "status_numeral 503 = ''503''"
    by code_simp
  have "js_includes ''HTTP 503 overloaded'' (status_numeral 503)"
    unfolding n by simp
  moreover have "(503::nat) \<in> set [500..<600]"
    by simp
  ultimately have a: "indicates_5xx ''HTTP 503 overloaded''"
    unfolding indicates_5xx_def list_ex_iff by blast
  have q: "\<not> js_includes ''HTTP 503 overloaded'' ''quota''"
    "\<not> js_includes ''HTTP 503 overloaded'' ''429''"
    "\<not> js_includes ''HTTP 503 overloaded'' ''500''"
    "\<not> js_includes ''HTTP 503 overloaded'' ''unavailable''"
    by simp_all
  have b: "classify_as_specified ''HTTP 503 overloaded'' = mk_error (JNum 500) (JStr MSG_UNAVAILABLE)"
    using a q by (simp only: classify_as_specified_def if_True if_False simp_thms)
  have c: "classify_message_end ''HTTP 503 overloaded'' = mk_error (JNum 0) (JStr ''HTTP 503 overloaded'')"
    using q by (simp add: classify_message_end_def)
  have d: "mk_error (JNum 0) (JStr ''HTTP 503 overloaded'') \<noteq> mk_error (JNum 500) (JStr MSG_UNAVAILABLE)"
    by (simp add: mk_error_def)
  from a b c d show ?thesis
    by (simp add: listener_def)
qed

subsection \<open>The auto\_retry\_start handler\<close>

lemma dot_not_nullish: "\<not> nullish v \<Longrightarrow> dot v k = Inr (js_prop v k)"
  by (simp add: dot_def)

lemma js_prop_nullish: "nullish v \<Longrightarrow> js_prop v k = JUndef"
  by (auto simp: nullish_def js_prop_def)

lemma opt_js_prop: "opt v k = js_prop v k"
  by (simp add: opt_def js_prop_nullish)

lemma retry_empty_payload:
  assumes "P (JStr ''{}'') = Some (JObj [])"
  shows "\<not> truthy x \<Longrightarrow> 
     (case P (js_or x (JStr ''{}'')) of
                  None \<Rightarrow> Inl SyntaxError
                | Some innerErr \<Rightarrow>
                    (case dot innerErr ''error'' of
                       Inl x \<Rightarrow> Inl x
                     | Inr ie \<Rightarrow>
                         (if opt ie ''code'' = JNum 429 then
                            Inr (mk_error (JNum 429) (JStr MSG_RATE_LIMITED))
                          else if ge500 S (opt ie ''code'') then
                            Inr (mk_error (opt ie ''code'') (JStr MSG_UNAVAILABLE))
                          else
                            Inr (mk_error (js_or (opt ie ''code'') (JNum 0))
                                   (js_or (opt ie ''message'') r))))) = Inr (mk_error (JNum 0) r)"
  using assms
  by (simp add: js_or_def dot_def nullish_def opt_def js_prop_def ge500_def to_number_def truthy_def)


lemma retry_body_fallback:
  assumes P0: "P (JStr ''{}'') = Some (JObj [])"
    and none: "inner_error P em = None"
  shows "(\<exists>x. retry_body P S em = Inl x) \<or> retry_body P S em = Inr (retry_fallback em)"
proof (cases "truthy (raw_message em)")
  case False
  then have "js_or (raw_message em) (JStr ''{}'') = JStr ''{}''"
    by (simp add: js_or_def)
  moreover have "dot (JObj []) ''error'' = Inr JUndef"
    by (simp add: dot_def nullish_def js_prop_def)
  moreover have "\<not> truthy (opt JUndef ''message'')"
    by (simp add: opt_def nullish_def truthy_def)
  ultimately have "retry_body P S em = Inr (mk_error (JNum 0) (raw_message em))"
    using P0 retry_empty_payload[where P = P and x = "opt JUndef ''message''" and S = S and r = "raw_message em"]
    by (simp add: retry_body_def)
  then show ?thesis
    by (simp add: retry_fallback_def)
next
  case True
  then obtain m where m: "em = Some m" "m \<noteq> []"
    by (cases em) (auto simp: raw_message_def truthy_def)
  then have first: "js_or (raw_message em) (JStr ''{}'') = JStr m"
    by (simp add: js_or_def raw_message_def truthy_def)
  show ?thesis
  proof (cases "P (JStr m)")
    case None
    with first show ?thesis
      by (simp add: retry_body_def)
  next
    case (Some d)
    show ?thesis
    proof (cases "nullish d")
      case True
      with Some first show ?thesis
        by (simp add: retry_body_def dot_def)
    next
      case False
      let ?x = "js_prop (js_prop d ''error'') ''message''"
      have body: "retry_body P S em =
        (case P (js_or ?x (JStr ''{}'')) of
                  None \<Rightarrow> Inl SyntaxError
                | Some innerErr \<Rightarrow>
                    (case dot innerErr ''error'' of
                       Inl x \<Rightarrow> Inl x
                     | Inr ie \<Rightarrow>
                         (if opt ie ''code'' = JNum 429 then
                            Inr (mk_error (JNum 429) (JStr MSG_RATE_LIMITED))
                          else if ge500 S (opt ie ''code'') then
                            Inr (mk_error (opt ie ''code'') (JStr MSG_UNAVAILABLE))
                          else
                            Inr (mk_error (js_or (opt ie ''code'') (JNum 0))
                                   (js_or (opt ie ''message'') (raw_message em))))))"
        using Some first False by (simp add: retry_body_def dot_def opt_js_prop)
      show ?thesis
      proof (cases "truthy ?x")
        case False
        from P0 False retry_empty_payload[where P = P and x = ?x and S = S and r = "raw_message em"] body
        show ?thesis
          by (simp add: retry_fallback_def)
      next
        case True
        then have second: "js_or ?x (JStr ''{}'') = ?x"
          by (simp add: js_or_def)
        show ?thesis
        proof (cases "P ?x")
          case None
          with body second show ?thesis by simp
        next
          case inner: (Some i)
          with none m Some True have nl: "nullish (js_prop i ''error'')"
            by (simp add: inner_error_def split: if_splits)
          show ?thesis
          proof (cases "nullish i")
            case True
            with body second inner show ?thesis
              by (simp add: dot_def)
          next
            case False
            have "opt (js_prop i ''error'') ''code'' = JUndef" "opt (js_prop i ''error'') ''message'' = JUndef"
              using nl by (simp_all add: opt_def)
            with body second inner False show ?thesis
              by (simp add: dot_def ge500_def to_number_def js_or_def truthy_def retry_fallback_def)
          qed
        qed
      qed
    qed
  qed
qed

text \<open>
  Claim C10. \<^verbatim>\<open>JSON.parse('{}')\<close> is the empty object. Then, for every
  \<^verbatim>\<open>auto_retry_start\<close> event, whatever \<^verbatim>\<open>JSON.parse\<close> does on other texts, the
  handler and the listener around it return without throwing; and when the nesting is
  missing or malformed (no \<^verbatim>\<open>errorMessage\<close>, a text that does not parse, or no inner
  error object), the error recorded has status 0 and the raw \<^verbatim>\<open>errorMessage\<close>.
\<close>

theorem auto_retry_never_throws:
  assumes "P (JStr ''{}'') = Some (JObj [])"
  shows "(\<exists>e. on_auto_retry_start P S em = Inr e) \<and>
         (\<exists>s'. listener P S md (AutoRetryStart em) s = Inr s') \<and>
         (inner_error P em = None \<longrightarrow>
            on_auto_retry_start P S em = Inr (retry_fallback em) \<and>
            listener P S md (AutoRetryStart em) s = Inr (s\<lparr>lastError := retry_fallback em\<rparr>))"
proof -
  have total: "\<exists>e. on_auto_retry_start P S em = Inr e"
    by (cases "retry_body P S em") (simp_all add: on_auto_retry_start_def)
  then have lis: "\<exists>s'. listener P S md (AutoRetryStart em) s = Inr s'"
    by (auto simp: listener_def)
  have fb: "on_auto_retry_start P S em = Inr (retry_fallback em)" if "inner_error P em = None"
    using assms that retry_body_fallback[where P = P and em = em and S = S]
    by (auto simp: on_auto_retry_start_def)
  then have "listener P S md (AutoRetryStart em) s = Inr (s\<lparr>lastError := retry_fallback em\<rparr>)"
    if "inner_error P em = None"
    using that by (simp add: listener_def)
  with total lis fb show ?thesis
    by blast
qed

theorem auto_retry_never_throws_witness:
  "toy_parse (JStr ''{}'') = Some (JObj []) \<and>
   inner_error toy_parse (Some ''overloaded'') = None \<and>
   retry_body toy_parse toy_number (Some ''overloaded'') = Inl SyntaxError \<and>
   on_auto_retry_start toy_parse toy_number (Some ''overloaded'') =
     Inr (mk_error (JNum 0) (JStr ''overloaded'')) \<and>
   listener toy_parse toy_number (\<lambda>t. t) (AutoRetryStart (Some ''overloaded'')) (init_state None) =
     Inr ((init_state None)\<lparr>lastError := mk_error (JNum 0) (JStr ''overloaded'')\<rparr>)"
proof -
  have p0: "toy_parse (JStr ''{}'') = Some (JObj [])"
    by (simp add: toy_parse_def)
  have ie: "inner_error toy_parse (Some ''overloaded'') = None"
    by (simp add: inner_error_def toy_parse_def INNER_TEXT_def OUTER_TEXT_def)
  have rb: "retry_body toy_parse toy_number (Some ''overloaded'') = Inl SyntaxError"
    by (simp add: retry_body_def toy_parse_def js_or_def raw_message_def truthy_def
          INNER_TEXT_def OUTER_TEXT_def)
  from auto_retry_never_throws[where P = toy_parse and S = toy_number and em = "Some ''overloaded''"
      and md = "\<lambda>t. t" and s = "init_state None"]
    p0 ie rb
  show ?thesis
    by (simp add: retry_fallback_def raw_message_def)
qed

text \<open>The handler on the other inputs of the examples: a text that parses to
  \<^verbatim>\<open>null\<close> makes the \<^verbatim>\<open>try\<close> block throw a \<^verbatim>\<open>TypeError\<close>, which is caught; a
  payload nested as expected yields its own status.\<close>

lemma auto_retry_examples:
  "retry_body toy_parse toy_number (Some ''null'') = Inl TypeError"
  "on_auto_retry_start toy_parse toy_number (Some ''null'') = Inr (mk_error (JNum 0) (JStr ''null''))"
  "on_auto_retry_start toy_parse toy_number None = Inr (mk_error (JNum 0) JUndef)"
  "inner_error toy_parse (Some OUTER_TEXT) = Some (JObj [(''code'', JNum 503)])"
  "on_auto_retry_start toy_parse toy_number (Some OUTER_TEXT) =
     Inr (mk_error (JNum 503) (JStr MSG_UNAVAILABLE))"
  by (simp_all add: on_auto_retry_start_def retry_body_def toy_parse_def js_or_def raw_message_def
        truthy_def dot_def nullish_def opt_def js_prop_def ge500_def to_number_def retry_fallback_def
        inner_error_def INNER_TEXT_def OUTER_TEXT_def DQ_def BSDQ_def)
section \<open>Proofs: the streaming loop\<close>

subsection \<open>doUpdate\<close>

lemma displayText_cong:
  "fullResponse s' = fullResponse s \<Longrightarrow> toolName s' = toolName s \<Longrightarrow> displayText s' = displayText s"
  by (simp add: displayText_def)

lemma target_cong:
  "streamMsgId s' = streamMsgId s \<Longrightarrow> chatId s' = chatId s \<Longrightarrow> target s' = target s"
  by (simp add: target_def)

lemmas ops = emit_def sendTyping_def stopLoadingAnimation_def stopTypingTimer_def
  stopUpdateTimer_def startUpdateTimer_def startLoadingAnimation_def startTypingTimer_def

lemma target_stopLoading [simp]: "target (stopLoadingAnimation s) = target s"
  by (simp add: target_def stopLoadingAnimation_def)

lemma displayText_stopLoading [simp]: "displayText (stopLoadingAnimation s) = displayText s"
  by (simp add: displayText_def stopLoadingAnimation_def)

lemma doUpdate_start_eq:
  "doUpdate_start md s =
     (if isUpdating s \<or> (fullResponse s = lastDisplayedText s \<and> toolName s = []) then s
      else case target s of
             None \<Rightarrow> s\<lparr>loadingTimer := loadingTimer s \<and> blank (fullResponse s)\<rparr>
           | Some (c, m) \<Rightarrow>
               s\<lparr>loadingTimer := loadingTimer s \<and> blank (fullResponse s),
                 isUpdating := True,
                 awaiting := Some (Markdown, displayText s),
                 calls := calls s @ [SendChatAction (chatId s),
                   EditMessageText (Some c) m (md (displayText s)) Markdown NoKeyboard]\<rparr>)"
  by (auto simp: doUpdate_start_def Let_def ops target_def displayText_def split: option.splits)

lemma doUpdate_start_unchanged:
  "fullResponse s = lastDisplayedText s \<Longrightarrow> toolName s = [] \<Longrightarrow> doUpdate_start md s = s"
  by (simp add: doUpdate_start_def)

lemma doUpdate_unchanged:
  "fullResponse s = lastDisplayedText s \<Longrightarrow> toolName s = [] \<Longrightarrow> doUpdate md a b s = s"
  by (simp add: doUpdate_def doUpdate_start_unchanged)

lemma doUpdate_busy: "isUpdating s \<Longrightarrow> doUpdate md a b s = s"
  by (simp add: doUpdate_def doUpdate_start_def)

lemma doUpdate_no_target:
  assumes "\<not> isUpdating s" "target s = None"
  shows "doUpdate md a b s =
          (if fullResponse s = lastDisplayedText s \<and> toolName s = [] then s
           else if \<not> blank (fullResponse s) then stopLoadingAnimation s else s)"
  using assms
  by (simp add: doUpdate_def doUpdate_start_def Let_def) (simp add: stopLoadingAnimation_def)

lemma doUpdate_displayed:
  assumes "\<not> isUpdating s" "target s = Some (c, m)" "a \<or> b"
    "\<not> (fullResponse s = lastDisplayedText s \<and> toolName s = [])"
  shows "lastDisplayedText (doUpdate md a b s) = fullResponse s \<and>
         fullResponse (doUpdate md a b s) = fullResponse s \<and>
         toolName (doUpdate md a b s) = toolName s \<and>
         \<not> isUpdating (doUpdate md a b s)"
  using assms
  by (auto simp: doUpdate_def doUpdate_start_def doUpdate_resume_def stopLoadingAnimation_def
        target_def emit_def sendTyping_def Let_def split: option.splits if_splits)

lemma doUpdate_old_displayed:
  "\<not> isUpdating s \<Longrightarrow> lastDisplayedText (doUpdate_old md a s) = fullResponse (doUpdate_old md a s)"
  by (auto simp: doUpdate_old_def Let_def emit_def sendTyping_def split: option.splits)

lemma doUpdate_old_unchanged:
  "fullResponse s = lastDisplayedText s \<Longrightarrow> doUpdate_old md a s = s"
  by (simp add: doUpdate_old_def)

lemma doUpdate_old_twice: "doUpdate_old md c (doUpdate_old md a s) = doUpdate_old md a s"
proof (cases "isUpdating s")
  case True
  then show ?thesis by (simp add: doUpdate_old_def)
next
  case False
  then show ?thesis
    by (simp add: doUpdate_old_unchanged doUpdate_old_displayed)
qed

text \<open>
  Claim C6, as the code has it. When the accumulated response equals the text last
  displayed and no tool is running, \<^verbatim>\<open>doUpdate\<close> changes nothing and makes no call.
  And with no tool running, once an edit of a call has gone through (the one with
  \<^verbatim>\<open>parse_mode\<close> or its plain-text retry), a second call with no change in between
  changes nothing and makes no call: two such calls make at most one edit that succeeds.
  In the earlier revision the first holds whatever the tool, and a second call after any
  first call changes nothing.
\<close>

theorem doUpdate_idempotent:
  "(fullResponse s = lastDisplayedText s \<and> toolName s = [] \<longrightarrow>
      doUpdate_start md s = s \<and> doUpdate md a b s = s) \<and>
   (toolName s = [] \<and> (a \<or> b) \<longrightarrow>
      doUpdate md c d (doUpdate md a b s) = doUpdate md a b s) \<and>
   (fullResponse s = lastDisplayedText s \<longrightarrow> doUpdate_old md a s = s) \<and>
   doUpdate_old md c (doUpdate_old md a s) = doUpdate_old md a s"
proof -
  have second: "doUpdate md c d (doUpdate md a b s) = doUpdate md a b s"
    if tn: "toolName s = []" and ok: "a \<or> b"
  proof (cases "isUpdating s")
    case True
    then show ?thesis by (simp add: doUpdate_busy)
  next
    case False
    show ?thesis
    proof (cases "fullResponse s = lastDisplayedText s")
      case True
      with tn show ?thesis by (simp add: doUpdate_unchanged)
    next
      case diff: False
      show ?thesis
      proof (cases "target s")
        case None
        let ?s1 = "if \<not> blank (fullResponse s) then stopLoadingAnimation s else s"
        have s1: "doUpdate md a b s = ?s1"
          using False None diff by (simp add: doUpdate_no_target)
        have "\<not> isUpdating ?s1" "target ?s1 = None"
          using False None by (simp_all add: stopLoadingAnimation_def target_def)
        then have "doUpdate md c d ?s1 =
          (if fullResponse ?s1 = lastDisplayedText ?s1 \<and> toolName ?s1 = [] then ?s1
           else if \<not> blank (fullResponse ?s1) then stopLoadingAnimation ?s1 else ?s1)"
          by (rule doUpdate_no_target)
        also have "\<dots> = ?s1"
          by (simp add: stopLoadingAnimation_def)
        finally show ?thesis
          using s1 by simp
      next
        case (Some t)
        obtain c' m' where t: "t = (c', m')" by (cases t)
        from doUpdate_displayed[OF False Some[unfolded t] ok, of md] diff tn
        have "lastDisplayedText (doUpdate md a b s) = fullResponse (doUpdate md a b s)"
          "toolName (doUpdate md a b s) = []"
          by simp_all
        then show ?thesis
          by (simp add: doUpdate_unchanged)
      qed
    qed
  qed
  show ?thesis
    using second
    by (simp add: doUpdate_start_unchanged doUpdate_unchanged doUpdate_old_unchanged doUpdate_old_twice)
qed

theorem doUpdate_idempotent_witness:
  "toolName demo_text_state = [] \<and> fullResponse demo_text_state \<noteq> lastDisplayedText demo_text_state \<and>
   length (edits (doUpdate (\<lambda>t. t) False True demo_text_state)) = 2 \<and>
   doUpdate (\<lambda>t. t) True True (doUpdate (\<lambda>t. t) False True demo_text_state) =
     doUpdate (\<lambda>t. t) False True demo_text_state \<and>
   doUpdate_start (\<lambda>t. t) demo_state = demo_state"
proof -
  have a: "toolName demo_text_state = []"
    "fullResponse demo_text_state \<noteq> lastDisplayedText demo_text_state"
    "length (edits (doUpdate (\<lambda>t. t) False True demo_text_state)) = 2"
    "fullResponse demo_state = lastDisplayedText demo_state \<and> toolName demo_state = []"
    by code_simp+
  from a doUpdate_idempotent[of demo_text_state "\<lambda>t. t" False True True True]
    doUpdate_idempotent[of demo_state "\<lambda>t. t" False True True True]
  show ?thesis
    by simp
qed

text \<open>
  The second sentence of the claim, as stated, fails in two ways. With a tool running,
  two calls in a row with the same response both edit the message. And with no tool
  running, when both attempts of each call fail, the two calls make four edit calls.
\<close>

theorem doUpdate_twice_counterexample:
  "fullResponse (doUpdate (\<lambda>t. t) True True demo_tool_state) = fullResponse demo_tool_state \<and>
   toolName (doUpdate (\<lambda>t. t) True True demo_tool_state) = toolName demo_tool_state \<and>
   edits demo_tool_state = [] \<and>
   edits (doUpdate (\<lambda>t. t) True True (doUpdate (\<lambda>t. t) True True demo_tool_state)) =
     [EditMessageText (Some 5) 7 (''x'' @ NL2 @ tool_status ''bash'' @ CURSOR) Markdown NoKeyboard,
      EditMessageText (Some 5) 7 (''x'' @ NL2 @ tool_status ''bash'' @ CURSOR) Markdown NoKeyboard] \<and>
   length (edits (doUpdate (\<lambda>t. t) False False (doUpdate (\<lambda>t. t) False False demo_text_state))) = 4"
  by code_simp

subsection \<open>The finally block\<close>


lemma quiet_cleared: "quiet (cleared s)"
  by (simp add: quiet_def cleared_def ops)

lemma quiet_doUpdate_start: "quiet s \<Longrightarrow> quiet (doUpdate_start md s)"
  by (auto simp: quiet_def doUpdate_start_eq split: option.splits)

lemma quiet_doUpdate_resume: "quiet s \<Longrightarrow> quiet (doUpdate_resume ok s)"
  by (auto simp: quiet_def doUpdate_resume_def ops split: option.splits parse_mode.splits)

lemma quiet_step_noop:
  assumes "quiet s" "is_tick_or_event i"
  shows "step P S md i s = Inr s"
  using assms
  by (cases i) (simp_all add: step_def on_event_def quiet_def is_tick_or_event_def)

lemma quiet_step:
  assumes "quiet s"
  shows "\<exists>s'. step P S md i s = Inr s' \<and> quiet s'"
proof (cases "is_tick_or_event i")
  case True
  with assms show ?thesis by (simp add: quiet_step_noop)
next
  case False
  then obtain ok where "i = EditSettled ok"
    by (cases i) (simp_all add: is_tick_or_event_def)
  with assms show ?thesis
    by (simp add: step_def quiet_doUpdate_resume)
qed

lemma idle_resume: "idle s \<Longrightarrow> doUpdate_resume ok s = s"
  by (simp add: idle_def doUpdate_resume_def)

lemma quiet_idle_step:
  assumes "quiet s" "idle s"
  shows "step P S md i s = Inr s"
proof (cases "is_tick_or_event i")
  case True
  with assms show ?thesis by (simp add: quiet_step_noop)
next
  case False
  then obtain ok where "i = EditSettled ok"
    by (cases i) (simp_all add: is_tick_or_event_def)
  with assms show ?thesis
    by (simp add: step_def idle_resume)
qed

lemma quiet_idle_run:
  assumes "quiet s" "idle s"
  shows "run_inputs P S md is s = Inr s"
  using assms by (induction "is") (simp_all add: quiet_idle_step)

lemma idle_doUpdate:
  assumes "idle s"
  shows "idle (doUpdate md a b s)"
  using assms
  by (auto simp: idle_def doUpdate_def doUpdate_start_eq doUpdate_resume_def Let_def ops target_def
      split: option.splits parse_mode.splits)

lemma quiet_doUpdate: "quiet s \<Longrightarrow> quiet (doUpdate md a b s)"
  by (simp add: doUpdate_def Let_def quiet_doUpdate_start quiet_doUpdate_resume)

lemma idle_cleared: "idle s \<Longrightarrow> idle (cleared s)"
  by (simp add: idle_def cleared_def ops)

lemma finalize_calls:
  "calls (finalize md s) =
     (if isUpdating s \<or> (fullResponse s = lastDisplayedText s \<and> toolName s = []) then calls s
      else case target s of
             None \<Rightarrow> calls s
           | Some (c, m) \<Rightarrow>
               calls s @ [SendChatAction (chatId s),
                          EditMessageText (Some c) m (md (displayText s)) Markdown NoKeyboard])"
  by (auto simp: finalize_def cleared_def doUpdate_start_eq ops target_def displayText_def
      split: option.splits)

text \<open>
  However \<^verbatim>\<open>session.prompt\<close> ended, the \<^verbatim>\<open>finally\<close> block leaves the three
  timers stopped and both listeners unsubscribed, whether its \<^verbatim>\<open>doUpdate\<close> is
  suspended or has returned; from then on no timer tick and no session event changes the
  state or makes a call, and the state stays so under every input. When no update was in
  flight at the start of the block, nothing at all happens after it.
\<close>

lemma finally_block_quiet:
  "quiet (finalize md s) \<and> quiet (finally_block md a b s) \<and>
   (is_tick_or_event i \<longrightarrow> step P S md i (finalize md s) = Inr (finalize md s)) \<and>
   (\<exists>s'. step P S md i (finalize md s) = Inr s' \<and> quiet s') \<and>
   (idle s \<longrightarrow> run_inputs P S md is (finally_block md a b s) = Inr (finally_block md a b s))"
proof -
  have q: "quiet (finalize md s)"
    by (simp add: finalize_def quiet_cleared quiet_doUpdate_start)
  have q': "quiet (finally_block md a b s)"
    by (simp add: finally_block_def quiet_cleared quiet_doUpdate)
  have "run_inputs P S md is (finally_block md a b s) = Inr (finally_block md a b s)" if "idle s"
    using that
    by (simp add: finally_block_def quiet_idle_run quiet_doUpdate quiet_cleared idle_doUpdate idle_cleared)
  with q q' show ?thesis
    by (simp add: quiet_step_noop quiet_step)
qed

text \<open>
  Claim C8 asks that the \<^verbatim>\<open>finally\<close> block, on every exit, stop the timers, release
  the subscriptions and flush the content once, whatever the throttle is doing. The block
  does announce a final update (its log line before \<^verbatim>\<open>await doUpdate()\<close>), but
  that call goes through the guards of every other update. Here the placeholder is message
  7 of chat 5, the delta \<open>Hi\<close> arrives, the update timer fires and its update awaits
  the edit of \<open>Hi\<close> with the cursor, and the delta \<open> there\<close> arrives.

  If the run ends while that edit is pending, the block stops the timers and returns at
  \<^verbatim>\<open>if (isUpdating) return\<close>: it makes no call. When \<^verbatim>\<open>session.prompt\<close> threw,
  the text \<open>Hi there\<close> is never sent; when it returned, the last edit of
  \<^verbatim>\<open>runAgent\<close> sends it, and if the pending edit then fails, its plain-text retry
  puts \<open>Hi\<close> with the cursor back over the final text.

  If the pending edit succeeds before the run ends, the update assigns
  \<^verbatim>\<open>lastDisplayedText = fullResponse\<close> after the await, that is \<open>Hi there\<close>, which
  was never sent. No update is in flight then, and still the block makes no call: it
  returns at the test \<^verbatim>\<open>fullResponse === lastDisplayedText\<close> while the message shows
  \<open>Hi\<close> with the cursor.
\<close>

theorem finally_block_skips_final_flush:
  "(case demo_inflight of
      Inl _ \<Rightarrow> False
    | Inr s \<Rightarrow>
        isUpdating s \<and> fullResponse s = ''Hi there'' \<and> edits s = [EditMessageText (Some 5) 7 (''Hi'' @ CURSOR) Markdown NoKeyboard] \<and>
        quiet (finally_block (\<lambda>t. t) True True s) \<and>
        calls (finally_block (\<lambda>t. t) True True s) = calls s \<and>
        end_run (\<lambda>t. t) (Rejected (External ''AbortError'' JUndef JUndef)) True True True (finally_block (\<lambda>t. t) True True s) =
          (Inl (External ''AbortError'' JUndef JUndef), finally_block (\<lambda>t. t) True True s) \<and>
        edits (doUpdate_resume True (finally_block (\<lambda>t. t) True True s)) = [EditMessageText (Some 5) 7 (''Hi'' @ CURSOR) Markdown NoKeyboard] \<and>
        edits (snd (end_run (\<lambda>t. t) Resolved True True True (finally_block (\<lambda>t. t) True True s))) = [EditMessageText (Some 5) 7 (''Hi'' @ CURSOR) Markdown NoKeyboard, EditMessageText (Some 5) 7 ''Hi there'' Markdown NoKeyboard] \<and>
        edits (doUpdate_resume False (snd (end_run (\<lambda>t. t) Resolved True True True (finally_block (\<lambda>t. t) True True s)))) =
          [EditMessageText (Some 5) 7 (''Hi'' @ CURSOR) Markdown NoKeyboard, EditMessageText (Some 5) 7 ''Hi there'' Markdown NoKeyboard, EditMessageText (Some 5) 7 (''Hi'' @ CURSOR) NoParseMode NoKeyboard]) \<and>
   (case demo_stale of
      Inl _ \<Rightarrow> False
    | Inr s \<Rightarrow>
        idle s \<and> fullResponse s = ''Hi there'' \<and> lastDisplayedText s = ''Hi there'' \<and>
        edits s = [EditMessageText (Some 5) 7 (''Hi'' @ CURSOR) Markdown NoKeyboard] \<and>
        quiet (finally_block (\<lambda>t. t) True True s) \<and>
        calls (finally_block (\<lambda>t. t) True True s) = calls s \<and>
        end_run (\<lambda>t. t) (Rejected (External ''AbortError'' JUndef JUndef)) True True True (finally_block (\<lambda>t. t) True True s) =
          (Inl (External ''AbortError'' JUndef JUndef), finally_block (\<lambda>t. t) True True s))"
  by code_simp

subsection \<open>How runAgent ends\<close>





subsection \<open>The example of two deltas\<close>

lemma both_Some: "m \<noteq> 0 \<Longrightarrow> c \<noteq> 0 \<Longrightarrow> both (Some m) (Some c) = Some (c, m)"
  by (simp add: both_def)

text \<open>
  Claim C9, as the code has it. For a run with a placeholder, in which the events are
  \<open>Hi\<close>, \<open> there\<close> and the end of the message, no timer fires and every call
  to Telegram succeeds, three edits of the placeholder are issued, in this order: the
  flush of the \<^verbatim>\<open>finally\<close> block, with the text and the cursor; the final edit of
  \<^verbatim>\<open>runAgent\<close>, with the text; and the edit of \<^verbatim>\<open>processUserMessage\<close>, with the
  text, the elapsed time and the keyboard of a finished task.
\<close>

theorem hi_there_scenario:
  assumes "m \<noteq> 0" "c \<noteq> 0"
  shows "\<exists>s res s'.
     run_inputs P S md hi_there (begin_run (Some m) (init_state (Some c))) = Inr s \<and>
     end_run md Resolved True True True (finally_block md True True s) = (Inr res, s') \<and>
     edits s' @ filter is_edit (deliver_result (Some c) dur True res) =
       [EditMessageText (Some c) m (md (''Hi there'' @ CURSOR)) Markdown NoKeyboard,
        EditMessageText (Some c) m (md ''Hi there'') Markdown NoKeyboard,
        EditMessageText (Some c) m (md ''Hi there'' @ ELAPSED @ dur) Markdown DoneKb]"
proof -
  let ?K = "[SendChatAction (Some c), Reply (loadingFrames ! 0) NoKeyboard]"
  let ?A = "\<lparr>fullResponse = [], toolName = [], lastError = JNull, streamMsgId = Some m,
      lastDisplayedText = [], updateTimer = True, typingTimer = True, loadingTimer = True,
      loadingFrame = 0, isUpdating = False, awaiting = None, unsub_live = True,
      toolUnsub_live = True, chatId = Some c, calls = ?K\<rparr>"
  let ?B = "\<lparr>fullResponse = ''Hi there'', toolName = [], lastError = JNull, streamMsgId = Some m,
      lastDisplayedText = [], updateTimer = True, typingTimer = True, loadingTimer = True,
      loadingFrame = 0, isUpdating = False, awaiting = None, unsub_live = True,
      toolUnsub_live = True, chatId = Some c, calls = ?K\<rparr>"
  let ?X = "EditMessageText (Some c) m (md (''Hi there'' @ CURSOR)) Markdown NoKeyboard"
  let ?Y = "EditMessageText (Some c) m (md ''Hi there'') Markdown NoKeyboard"
  let ?C = "\<lparr>fullResponse = ''Hi there'', toolName = [], lastError = JNull, streamMsgId = Some m,
      lastDisplayedText = ''Hi there'', updateTimer = False, typingTimer = False,
      loadingTimer = False, loadingFrame = 0, isUpdating = False, awaiting = None,
      unsub_live = False, toolUnsub_live = False, chatId = Some c,
      calls = ?K @ [SendChatAction (Some c), ?X]\<rparr>"
  have s0: "begin_run (Some m) (init_state (Some c)) = ?A"
    by (simp add: begin_run_def init_state_def startUpdateTimer_def startLoadingAnimation_def
        initStreamMsg_def has_msg_def startTypingTimer_def sendTyping_def emit_def Let_def)
  have run: "run_inputs P S md hi_there ?A = Inr ?B"
    by (simp add: hi_there_def step_def on_event_def listener_def tool_listener_def
        startUpdateTimer_def)
  have nb: "\<not> blank ''Hi there''"
    by (simp add: blank_def is_space_def)
  have fin: "finally_block md True True ?B = ?C"
    using assms nb
    by (simp add: finally_block_def cleared_def doUpdate_def doUpdate_start_def
        doUpdate_resume_def Let_def stopLoadingAnimation_def stopTypingTimer_def
        stopUpdateTimer_def sendTyping_def emit_def target_def both_Some
        displayText_def render_def TG_MAX_LEN_def)
  have "end_run md Resolved True True True ?C =
          (Inr \<lparr>response = md ''Hi there'', resultMsgId = Some m\<rparr>, ?C\<lparr>calls := calls ?C @ [?Y]\<rparr>)"
    using assms nb
    by (simp add: end_run_def after_finally_def truthy_def target_def both_Some TG_MAX_LEN_def
        emit_def Let_def)
  moreover have "edits (?C\<lparr>calls := calls ?C @ [?Y]\<rparr>) = [?X, ?Y]"
    by (simp add: edits_def is_edit_def)
  moreover have "filter is_edit (deliver_result (Some c) dur True
        \<lparr>response = md ''Hi there'', resultMsgId = Some m\<rparr>) =
      [EditMessageText (Some c) m (md ''Hi there'' @ ELAPSED @ dur) Markdown DoneKb]"
    using assms by (simp add: deliver_result_def is_edit_def)
  ultimately show ?thesis
    using s0 run fin by simp
qed

theorem hi_there_scenario_witness:
  "(7::nat) \<noteq> 0 \<and> (5::int) \<noteq> 0 \<and>
   (\<exists>s res s'.
     run_inputs toy_parse toy_number (\<lambda>t. t) hi_there (begin_run (Some 7) (init_state (Some 5))) = Inr s \<and>
     end_run (\<lambda>t. t) Resolved True True True (finally_block (\<lambda>t. t) True True s) = (Inr res, s') \<and>
     edits s' @ filter is_edit (deliver_result (Some 5) ''0.3'' True res) =
       [EditMessageText (Some 5) 7 (''Hi there'' @ CURSOR) Markdown NoKeyboard,
        EditMessageText (Some 5) 7 ''Hi there'' Markdown NoKeyboard,
        EditMessageText (Some 5) 7 (''Hi there'' @ ELAPSED @ ''0.3'') Markdown DoneKb])"
proof -
  have a: "(7::nat) \<noteq> 0" "(5::int) \<noteq> 0"
    by simp_all
  from a hi_there_scenario[OF a, of toy_parse toy_number "\<lambda>t. t" "''0.3''"] show ?thesis
    by blast
qed

text \<open>The claim as stated counts one edit. The same run, evaluated: three.\<close>

theorem hi_there_three_edits_counterexample:
  "(case run_inputs toy_parse toy_number (\<lambda>t. t) hi_there demo_state of
      Inl _ \<Rightarrow> False
    | Inr s \<Rightarrow>
        (case end_run (\<lambda>t. t) Resolved True True True (finally_block (\<lambda>t. t) True True s) of
           (Inl _, _) \<Rightarrow> False
         | (Inr res, s') \<Rightarrow>
             length (edits s' @ filter is_edit (deliver_result (Some 5) ''0.3'' True res)) = 3 \<and>
             edits s' @ filter is_edit (deliver_result (Some 5) ''0.3'' True res) =
               [EditMessageText (Some 5) 7 (''Hi there'' @ CURSOR) Markdown NoKeyboard,
                EditMessageText (Some 5) 7 ''Hi there'' Markdown NoKeyboard,
                EditMessageText (Some 5) 7 (''Hi there'' @ ELAPSED @ ''0.3'') Markdown DoneKb]))"
  by code_simp
section \<open>Proofs: the task runner\<close>

lemma on_catch_keeps:
  "runningTasks (snd (on_catch S text ce e r)) = runningTasks r"
  "timeouts (snd (on_catch S text ce e r)) = timeouts r"
  "started (snd (on_catch S text ce e r)) = started r"
  by (simp_all add: on_catch_def Let_def split: prod.splits option.splits)

lemma settle_releases:
  "runningTasks (snd (settle S chat k text dur rich_ok te ce outcome r)) = runningTasks r - {k}"
  "timeouts (snd (settle S chat k text dur rich_ok te ce outcome r)) = remove1 k (timeouts r)"
  by (auto simp: settle_def release_def Let_def on_catch_def
      split: prod.splits option.splits task_outcome.splits)

lemma accept_keeps:
  "k \<in> runningTasks r \<Longrightarrow> k \<in> runningTasks (snd (accept chat k' text touch r))"
  by (simp add: accept_def split: option.splits)

lemma arm_keeps: "runningTasks (snd (arm k now r)) = runningTasks r"
  by (simp add: arm_def Let_def split: prod.splits)

lemma adopt_keeps:
  "runningTasks (adopt k h now now' r) = runningTasks r"
  "timeouts (adopt k h now now' r) = timeouts r"
  "started (adopt k h now now' r) = started r"
  by (simp_all add: adopt_def Let_def)

lemma arm_started: "started (snd (arm k now r)) = started r"
  by (simp add: arm_def Let_def split: prod.splits)

lemma settle_started:
  "started (snd (settle S chat k text dur rich_ok te ce outcome r)) = started r"
  by (auto simp: settle_def release_def Let_def on_catch_def
      split: prod.splits option.splits task_outcome.splits)

lemma step_keeps:
  assumes "k \<in> runningTasks r" "\<not> releases k st"
  shows "k \<in> runningTasks (apply_rstep S st r)"
  using assms
  by (cases st)
     (auto simp: apply_rstep_def releases_def accept_keeps arm_keeps adopt_keeps invoke_def settle_releases)

lemma handler_refused:
  assumes "k \<in> runningTasks r"
  shows "snd (processUserMessage S chat k text touch re now created now1 now2 dur rich_ok te ce outcome r) =
         snd (accept chat k text touch r)"
  using assms by (simp add: processUserMessage_def accept_def)

lemma handler_accepted:
  assumes "k \<notin> runningTasks r" "\<not> blank text"
  shows "started (snd (processUserMessage S chat k text None re now (Inr h) now1 now2 dur rich_ok te ce outcome r)) =
           started r @ [k]"
    and "k \<notin> runningTasks (snd (processUserMessage S chat k text None re now (Inr h) now1 now2 dur rich_ok te ce outcome r))"
  using assms
  by (auto simp: processUserMessage_def accept_def settle_started settle_releases invoke_def
      adopt_keeps arm_def Let_def split: prod.splits option.splits)

lemma run_keeps:
  assumes "k \<in> runningTasks r" "\<not> list_ex (releases k) steps"
  shows "k \<in> runningTasks (fold (apply_rstep S) steps r)"
  using assms
  by (induction steps arbitrary: r) (simp_all add: step_keeps)

text \<open>
  Claim C3, as the code has it. A handler is accepted only for a key that is not running, and acceptance
  marks the key in the same synchronous step, so a second check for the key right after
  it is not accepted. While the key is running, a message for it is never accepted, and
  its whole handler starts no agent invocation, arms no timer and leaves the running set
  and the session store as they are; when its text is not blank it is answered by the
  notice with the cancel button, and when its text is blank (empty or white space only)
  the handler returns before the check and sends nothing. The key stays running through
  every step of every handler until a \<^verbatim>\<open>finally\<close> block of its own task runs. However the
  \<^verbatim>\<open>try\<close> block of the accepted task ends, with a result or an exception, and whether
  or not the logging throws in turn, the \<^verbatim>\<open>finally\<close> block removes the key and clears
  the timeout of the task. By contrast with the refused message, the handler of a
  non-blank message for a key that is not running starts exactly one invocation (when
  the session is there or is created) and has released the key when it ends.
\<close>

theorem one_task_per_key:
  "(fst (accept chat k body touch r) = Accepted \<longrightarrow>
      k \<notin> runningTasks r \<and> k \<in> runningTasks (snd (accept chat k body touch r)) \<and>
      fst (accept chat' k body' touch' (snd (accept chat k body touch r))) \<noteq> Accepted) \<and>
   (k \<in> runningTasks r \<longrightarrow>
      fst (accept chat k body touch r) \<noteq> Accepted \<and>
      started (snd (accept chat k body touch r)) = started r \<and>
      runningTasks (snd (accept chat k body touch r)) = runningTasks r \<and>
      timeouts (snd (accept chat k body touch r)) = timeouts r \<and>
      (\<not> blank body \<longrightarrow>
         accept chat k body touch r = (Busy, r\<lparr>outbox := outbox r @ [Api (Reply BUSY_NOTICE CancelKb)]\<rparr>))) \<and>
   (k \<in> runningTasks r \<and> \<not> list_ex (releases k) steps \<longrightarrow>
      k \<in> runningTasks (fold (apply_rstep S) steps r) \<and>
      fst (accept chat k body touch (fold (apply_rstep S) steps r)) \<noteq> Accepted) \<and>
   k \<notin> runningTasks (snd (settle S chat k body dur rich_ok te ce outcome r)) \<and>
   timeouts (snd (settle S chat k body dur rich_ok te ce outcome r)) = remove1 k (timeouts r) \<and>
   (distinct (timeouts r) \<longrightarrow>
      k \<notin> set (timeouts (snd (settle S chat k body dur rich_ok te ce outcome r)))) \<and>
   (blank body \<longrightarrow> accept chat k body touch r = (Ignored, r)) \<and>
   (k \<in> runningTasks r \<longrightarrow>
      started (snd (processUserMessage S chat k body touch re now created now1 now2 dur rich_ok te ce outcome r)) = started r \<and>
      timeouts (snd (processUserMessage S chat k body touch re now created now1 now2 dur rich_ok te ce outcome r)) = timeouts r \<and>
      runningTasks (snd (processUserMessage S chat k body touch re now created now1 now2 dur rich_ok te ce outcome r)) = runningTasks r \<and>
      store_of (snd (processUserMessage S chat k body touch re now created now1 now2 dur rich_ok te ce outcome r)) = store_of r \<and>
      (blank body \<longrightarrow> snd (processUserMessage S chat k body touch re now created now1 now2 dur rich_ok te ce outcome r) = r)) \<and>
   (k \<notin> runningTasks r \<and> \<not> blank body \<and> touch = None \<and> created = Inr h \<longrightarrow>
      started (snd (processUserMessage S chat k body touch re now created now1 now2 dur rich_ok te ce outcome r)) = started r @ [k] \<and>
      k \<notin> runningTasks (snd (processUserMessage S chat k body touch re now created now1 now2 dur rich_ok te ce outcome r)))"
proof -
  have busy: "fst (accept c k t x q) \<noteq> Accepted" if "k \<in> runningTasks q" for c t x q
    using that by (simp add: accept_def)
  have a: "k \<notin> runningTasks r \<and> k \<in> runningTasks (snd (accept chat k body touch r)) \<and>
      fst (accept chat' k body' touch' (snd (accept chat k body touch r))) \<noteq> Accepted"
    if "fst (accept chat k body touch r) = Accepted"
  proof -
    from that have "k \<notin> runningTasks r" "k \<in> runningTasks (snd (accept chat k body touch r))"
      by (auto simp: accept_def split: if_splits option.splits)
    then show ?thesis
      using busy by blast
  qed
  have b: "started (snd (accept chat k body touch r)) = started r \<and>
      runningTasks (snd (accept chat k body touch r)) = runningTasks r \<and>
      timeouts (snd (accept chat k body touch r)) = timeouts r \<and>
      (\<not> blank body \<longrightarrow>
         accept chat k body touch r = (Busy, r\<lparr>outbox := outbox r @ [Api (Reply BUSY_NOTICE CancelKb)]\<rparr>))"
    if "k \<in> runningTasks r"
    using that by (simp add: accept_def)
  have c: "k \<in> runningTasks (fold (apply_rstep S) steps r) \<and>
      fst (accept chat k body touch (fold (apply_rstep S) steps r)) \<noteq> Accepted"
    if "k \<in> runningTasks r" "\<not> list_ex (releases k) steps"
    using that run_keeps busy by blast
  have e: "k \<notin> runningTasks (snd (settle S chat k body dur rich_ok te ce outcome r))"
    by (simp add: settle_releases)
  have f: "timeouts (snd (settle S chat k body dur rich_ok te ce outcome r)) = remove1 k (timeouts r)"
    by (simp add: settle_releases)
  have g: "distinct (timeouts r) \<longrightarrow>
      k \<notin> set (timeouts (snd (settle S chat k body dur rich_ok te ce outcome r)))"
    by (simp add: settle_releases)
  have b': "k \<in> runningTasks r \<longrightarrow>
      fst (accept chat k body touch r) \<noteq> Accepted \<and>
      started (snd (accept chat k body touch r)) = started r \<and>
      runningTasks (snd (accept chat k body touch r)) = runningTasks r \<and>
      timeouts (snd (accept chat k body touch r)) = timeouts r \<and>
      (\<not> blank body \<longrightarrow>
         accept chat k body touch r = (Busy, r\<lparr>outbox := outbox r @ [Api (Reply BUSY_NOTICE CancelKb)]\<rparr>))"
    using b busy by blast
  have i: "blank body \<longrightarrow> accept chat k body touch r = (Ignored, r)"
    by (simp add: accept_def)
  have j: "k \<in> runningTasks r \<longrightarrow>
      started (snd (processUserMessage S chat k body touch re now created now1 now2 dur rich_ok te ce outcome r)) = started r \<and>
      timeouts (snd (processUserMessage S chat k body touch re now created now1 now2 dur rich_ok te ce outcome r)) = timeouts r \<and>
      runningTasks (snd (processUserMessage S chat k body touch re now created now1 now2 dur rich_ok te ce outcome r)) = runningTasks r \<and>
      store_of (snd (processUserMessage S chat k body touch re now created now1 now2 dur rich_ok te ce outcome r)) = store_of r \<and>
      (blank body \<longrightarrow> snd (processUserMessage S chat k body touch re now created now1 now2 dur rich_ok te ce outcome r) = r)"
    by (simp add: handler_refused accept_def)
  have l: "k \<notin> runningTasks r \<and> \<not> blank body \<and> touch = None \<and> created = Inr h \<longrightarrow>
      started (snd (processUserMessage S chat k body touch re now created now1 now2 dur rich_ok te ce outcome r)) = started r @ [k] \<and>
      k \<notin> runningTasks (snd (processUserMessage S chat k body touch re now created now1 now2 dur rich_ok te ce outcome r))"
    by (auto simp: handler_accepted)
  show ?thesis
    apply (intro conjI)
    using a apply blast
    using b' apply blast
    using c apply blast
    using e apply blast
    using f apply blast
    using g apply blast
    using i apply blast
    using j apply blast
    using l apply blast
    done
qed

theorem one_task_per_key_witness:
  "fst (accept (Some 5) ''1_5'' ''hello'' None init_runner) = Accepted \<and>
   ''1_5'' \<in> runningTasks demo_running \<and>
   \<not> blank ''again'' \<and>
   accept (Some 5) ''1_5'' ''again'' None demo_running =
     (Busy, demo_running\<lparr>outbox := outbox demo_running @ [Api (Reply BUSY_NOTICE CancelKb)]\<rparr>) \<and>
   \<not> list_ex (releases ''1_5'') demo_steps \<and>
   ''1_5'' \<in> runningTasks (fold (apply_rstep toy_number) demo_steps demo_running) \<and>
   fst (accept (Some 5) ''1_5'' ''again'' None (fold (apply_rstep toy_number) demo_steps demo_running)) \<noteq> Accepted \<and>
   ''1_5'' \<notin> runningTasks (snd (settle toy_number (Some 5) ''1_5'' ''again'' ''0.3'' True None None
       (Threw (External ''AbortError'' JUndef JUndef)) demo_running)) \<and>
   started (snd (processUserMessage toy_number (Some 5) ''1_5'' ''again'' None None 2000 (Inr 1) 2001 2002
       ''0.3'' True None None (Threw (External ''AbortError'' JUndef JUndef)) demo_running)) =
     started demo_running \<and>
   ''1_5'' \<notin> runningTasks init_runner \<and>
   started (snd (processUserMessage toy_number (Some 5) ''1_5'' ''hello'' None None 1000 (Inr 1) 1001 1002
       ''0.3'' True None None (Returned \<lparr>response = ''hi'', resultMsgId = Some 8\<rparr>) init_runner)) =
     started init_runner @ [''1_5''] \<and>
   ''1_5'' \<notin> runningTasks (snd (processUserMessage toy_number (Some 5) ''1_5'' ''hello'' None None 1000 (Inr 1)
       1001 1002 ''0.3'' True None None (Returned \<lparr>response = ''hi'', resultMsgId = Some 8\<rparr>) init_runner))"
proof -
  have h1: "fst (accept (Some 5) ''1_5'' ''hello'' None init_runner) = Accepted"
    by (simp add: accept_def init_runner_def blank_def is_space_def)
  have h2: "\<not> blank ''again''"
    by (simp add: blank_def is_space_def)
  have h3: "\<not> list_ex (releases ''1_5'') demo_steps"
    by (simp add: demo_steps_def releases_def)
  have h5: "\<not> blank ''hello''"
    by (simp add: blank_def is_space_def)
  have h6: "''1_5'' \<notin> runningTasks init_runner"
    by (simp add: init_runner_def)
  note A = one_task_per_key[where chat = "Some 5" and k = "''1_5''" and body = "''hello''"
      and touch = None and r = init_runner and steps = "[]" and S = toy_number
      and re = None and now = 1000 and created = "Inr 1" and h = 1 and ?now1.0 = 1001 and ?now2.0 = 1002
      and dur = "''0.3''" and rich_ok = True and te = None and ce = None
      and outcome = "Returned \<lparr>response = ''hi'', resultMsgId = Some 8\<rparr>"]
  have h4: "''1_5'' \<in> runningTasks demo_running"
    using A h1 unfolding demo_running_def by blast
  note B = one_task_per_key[where chat = "Some 5" and k = "''1_5''" and body = "''again''"
      and touch = None and r = demo_running and steps = demo_steps and S = toy_number and dur = "''0.3''"
      and rich_ok = True and te = None and ce = None
      and re = None and now = 2000 and created = "Inr 1" and h = 1 and ?now1.0 = 2001 and ?now2.0 = 2002
      and outcome = "Threw (External ''AbortError'' JUndef JUndef)"]
  have a1: "''1_5'' \<notin> runningTasks init_runner \<and> \<not> blank ''hello'' \<and>
      (None :: exn option) = None \<and> (Inr 1 :: exn + handle) = Inr 1"
    using h5 h6 by simp
  from A a1 have h7:
    "started (snd (processUserMessage toy_number (Some 5) ''1_5'' ''hello'' None None 1000 (Inr 1) 1001 1002
       ''0.3'' True None None (Returned \<lparr>response = ''hi'', resultMsgId = Some 8\<rparr>) init_runner)) =
     started init_runner @ [''1_5''] \<and>
   ''1_5'' \<notin> runningTasks (snd (processUserMessage toy_number (Some 5) ''1_5'' ''hello'' None None 1000 (Inr 1)
       1001 1002 ''0.3'' True None None (Returned \<lparr>response = ''hi'', resultMsgId = Some 8\<rparr>) init_runner))"
    by blast
  from B h4 have h8:
    "started (snd (processUserMessage toy_number (Some 5) ''1_5'' ''again'' None None 2000 (Inr 1) 2001 2002
       ''0.3'' True None None (Threw (External ''AbortError'' JUndef JUndef)) demo_running)) =
     started demo_running"
    by blast
  from B h2 h4 have h9:
    "accept (Some 5) ''1_5'' ''again'' None demo_running =
     (Busy, demo_running\<lparr>outbox := outbox demo_running @ [Api (Reply BUSY_NOTICE CancelKb)]\<rparr>)"
    by blast
  from B h3 h4 have h10:
    "''1_5'' \<in> runningTasks (fold (apply_rstep toy_number) demo_steps demo_running) \<and>
     fst (accept (Some 5) ''1_5'' ''again'' None (fold (apply_rstep toy_number) demo_steps demo_running)) \<noteq> Accepted"
    by blast
  from B have h11:
    "''1_5'' \<notin> runningTasks (snd (settle toy_number (Some 5) ''1_5'' ''again'' ''0.3'' True None None
       (Threw (External ''AbortError'' JUndef JUndef)) demo_running))"
    by blast
  show ?thesis
    apply (intro conjI)
    using h1 apply blast
    using h4 apply blast
    using h2 apply blast
    using h9 apply blast
    using h3 apply blast
    using h10 apply blast
    using h10 apply blast
    using h11 apply blast
    using h8 apply blast
    using h6 apply blast
    using h7 apply blast
    using h7 apply blast
    done
qed

text \<open>
  The notice is not sent to every message that arrives while the key is running: a
  message whose text is a single no-break space is white space to \<^verbatim>\<open>trim\<close>, so the
  handler returns at its first line, before the check, and the chat receives nothing.
\<close>

theorem blank_message_unanswered_counterexample:
  "''1_5'' \<in> runningTasks demo_running \<and>
   accept (Some 5) ''1_5'' [CHR 0xA0] None demo_running = (Ignored, demo_running) \<and>
   processUserMessage toy_number (Some 5) ''1_5'' [CHR 0xA0] None None 2000 (Inr 1) 2001 2002
       ''0.3'' True None None (Returned \<lparr>response = ''hi'', resultMsgId = Some 8\<rparr>) demo_running =
     (None, demo_running) \<and>
   outbox (snd (accept (Some 5) ''1_5'' [CHR 0xA0] None demo_running)) = outbox demo_running \<and>
   Api (Reply BUSY_NOTICE CancelKb) \<notin> set (outbox (snd (accept (Some 5) ''1_5'' [CHR 0xA0] None demo_running)))"
  by (simp add: processUserMessage_def accept_def blank_def is_space_def demo_running_def
      init_runner_def)

end
